theory Spec2Isabelle
  imports Main "HOL-Library.Word" "HOL-Library.Multiset" "HOL-Library.Sublist"
begin

section \<open>Library behaviour the program relies on\<close>

subsection \<open>fmt.Sprintf\<close>

text \<open>
  Go strings are byte sequences, so they are modelled as \<open>string\<close>. An \<open>error\<close> value is
  represented by the text its \<open>Error()\<close> method returns. The source uses the verbs
  \<open>%s\<close>, \<open>%d\<close> and \<open>%v\<close> only, each with an operand of the matching kind and with no
  operand left over. The other branches follow the notation of package fmt for a wrong
  verb, a missing operand, an operand left over and a format that ends in \<open>%\<close>, with
  \<open>error\<close> written for the dynamic type of an error value.
\<close>

datatype arg = S string | D int | V string

definition digit :: "nat \<Rightarrow> char" where
  "digit n = ''0123456789'' ! (n mod 10)"

fun digits :: "nat \<Rightarrow> string" where
  "digits n = (if n < 10 then [digit n] else digits (n div 10) @ [digit n])"

declare digits.simps [simp del]

definition itoa :: "int \<Rightarrow> string" where
  "itoa i = (if i < 0 then CHR ''-'' # digits (nat (- i)) else digits (nat i))"

definition verb :: "char \<Rightarrow> arg \<Rightarrow> string" where
  "verb c a =
     (case a of
        S s \<Rightarrow> if c = CHR ''s'' \<or> c = CHR ''v'' then s
               else ''%!'' @ [c] @ ''(string='' @ s @ '')''
      | D i \<Rightarrow> if c = CHR ''d'' \<or> c = CHR ''v'' then itoa i
               else ''%!'' @ [c] @ ''(int='' @ itoa i @ '')''
      | V e \<Rightarrow> if c = CHR ''v'' \<or> c = CHR ''s'' then e
               else ''%!'' @ [c] @ ''(error='' @ e @ '')'')"

definition kind :: "arg \<Rightarrow> string" where
  "kind a = (case a of S s \<Rightarrow> ''string='' @ s | D i \<Rightarrow> ''int='' @ itoa i | V e \<Rightarrow> ''error='' @ e)"

fun extra :: "arg list \<Rightarrow> string" where
  "extra [] = []"
| "extra [a] = kind a"
| "extra (a # b # as) = kind a @ '', '' @ extra (b # as)"

fun Sprintf :: "string \<Rightarrow> arg list \<Rightarrow> string" where
  "Sprintf [] args = (if args = [] then [] else ''%!(EXTRA '' @ extra args @ '')'')"
| "Sprintf [c] args =
     (if c = CHR ''%'' then ''%!(NOVERB)'' @ Sprintf [] args else c # Sprintf [] args)"
| "Sprintf (c # d # cs) args =
     (if c \<noteq> CHR ''%'' then c # Sprintf (d # cs) args
      else if d = CHR ''%'' then CHR ''%'' # Sprintf cs args
      else (case args of
              [] \<Rightarrow> ''%!'' @ [d] @ ''(MISSING)'' @ Sprintf cs []
            | a # as \<Rightarrow> verb d a @ Sprintf cs as))"

subsection \<open>strings.Fields\<close>

text \<open>
  \<open>strings.Fields\<close> splits a string around runs of white space as \<open>unicode.IsSpace\<close>
  defines it. \<open>space_len bs\<close> is the number of bytes of the white-space rune that \<open>bs\<close>
  starts with, or \<open>0\<close> when it starts with none: the six ASCII characters, and the UTF-8
  encodings of U+0085, U+00A0, U+1680, U+2000 to U+200A, U+2028, U+2029, U+202F, U+205F
  and U+3000. A lead byte of one of these encodings is never a continuation byte of
  another rune, so the test can be made at every byte position.
\<close>

definition ascii_space :: "nat \<Rightarrow> bool" where
  "ascii_space b = (b = 9 \<or> b = 10 \<or> b = 11 \<or> b = 12 \<or> b = 13 \<or> b = 32)"

definition space_len :: "nat list \<Rightarrow> nat" where
  "space_len bs =
     (case bs of
        [] \<Rightarrow> 0
      | b # r \<Rightarrow>
          if ascii_space b then 1
          else if take 2 bs = [0xC2, 0x85] \<or> take 2 bs = [0xC2, 0xA0] then 2
          else if take 3 bs = [0xE1, 0x9A, 0x80] \<or> take 3 bs = [0xE2, 0x81, 0x9F]
                  \<or> take 3 bs = [0xE3, 0x80, 0x80] then 3
          else if take 2 bs = [0xE2, 0x80] \<and>
                  (case drop 2 bs of
                     [] \<Rightarrow> False
                   | t # _ \<Rightarrow> (0x80 \<le> t \<and> t \<le> 0x8A) \<or> t = 0xA8 \<or> t = 0xA9 \<or> t = 0xAF)
               then 3
          else 0)"

definition flush :: "string \<Rightarrow> string list" where
  "flush cur = (if cur = [] then [] else [cur])"

function fields_from :: "string \<Rightarrow> string \<Rightarrow> string list" where
  "fields_from cur [] = flush cur"
| "fields_from cur (c # cs) =
     (if 0 < space_len (map of_char (c # cs))
      then flush cur @ fields_from [] (drop (space_len (map of_char (c # cs))) (c # cs))
      else fields_from (cur @ [c]) cs)"
  by pat_completeness auto
termination
  by (relation "measure (\<lambda>(cur, s). length s)") auto

definition Fields :: "string \<Rightarrow> string list" where
  "Fields s = fields_from [] s"

subsection \<open>time.Duration, os/exec and the trace of a run\<close>

text \<open>
  \<open>time.Duration\<close> is an \<open>int64\<close> count of nanoseconds and Go's \<open>int\<close> is 64 bits wide on
  the amd64 target the readme builds for; both are 64-bit words whose arithmetic wraps
  and which \<open>sint\<close> reads. \<open>time.Sleep\<close> returns at once for a duration that is zero or
  negative.
\<close>

type_synonym Duration = "64 word"

definition Second :: Duration where
  "Second = 1000000000"

definition Minute :: Duration where
  "Minute = 60 * Second"

definition slept_ns :: "Duration \<Rightarrow> int" where
  "slept_ns d = (if sint d \<le> 0 then 0 else sint d)"

text \<open>
  What an external command does is an input of the model. \<open>Finished out\<close>: it exits with
  status 0 and standard output \<open>out\<close>. \<open>Failed err\<close>: it cannot be started or exits with
  another status, and \<open>Output\<close> returns the error \<open>err\<close>. \<open>Hangs\<close>: left alone it
  never exits, and once it is killed nothing holds its standard output open.
  \<open>Lingers\<close>: its standard output is never closed, whether the command is killed or
  not, because a process it has started holds the pipe open for ever.

  \<open>Output\<close> waits until the command has exited and its standard output has been read to
  the end. For a command made with \<open>exec.Command\<close> it never returns (\<open>None\<close>) when the
  command hangs or lingers. A command made with \<open>exec.CommandContext\<close> is killed when its
  context is cancelled; \<open>Output\<close> then returns the error of the killed process when the
  pipe is closed, and never returns when it stays open (\<open>Cmd.WaitDelay\<close> is left at
  zero, so nothing closes it).
\<close>

datatype cmd_result = Finished string | Failed string | Hangs | Lingers

definition Output :: "cmd_result \<Rightarrow> (string + string) option" where
  "Output c =
     (case c of
        Finished out \<Rightarrow> Some (Inr out)
      | Failed err \<Rightarrow> Some (Inl err)
      | Hangs \<Rightarrow> None
      | Lingers \<Rightarrow> None)"

definition killed :: string where
  "killed = ''signal: killed''"

definition Output_ctx :: "cmd_result \<Rightarrow> (string + string) option" where
  "Output_ctx c =
     (case c of
        Finished out \<Rightarrow> Some (Inr out)
      | Failed err \<Rightarrow> Some (Inl err)
      | Hangs \<Rightarrow> Some (Inl killed)
      | Lingers \<Rightarrow> None)"

text \<open>
  A run is observed through its events. \<open>Log StdLogger\<close> is a line of the standard
  library's \<open>log\<close> package, the other levels are logrus levels (\<open>Print\<close> and \<open>Println\<close>
  of a logrus logger log at \<open>InfoLevel\<close>); \<open>Stdout\<close> is \<open>fmt.Println\<close>; \<open>Timer d\<close> starts
  a goroutine that cancels the context of the cycle once \<open>d\<close> has passed. A function that
  can end the process returns, with its events, how control leaves it: \<open>Ret x\<close> it
  returns \<open>x\<close>, \<open>Exit n\<close> the process exited with status \<open>n\<close> (\<open>Fatalf\<close> logs and exits
  with 1), \<open>Blocked\<close> it waits forever, \<open>Panic\<close> a run-time panic.
\<close>

datatype level = InfoLevel | WarnLevel | ErrorLevel | FatalLevel | StdLogger

datatype event =
    Exec "string list"
  | Log level string
  | Stdout string
  | Sleep Duration
  | Timer Duration
  | InstallService string "64 word" string

datatype 'a ctl = Ret 'a | Exit int | Blocked | Panic

definition seq :: "event list \<times> 'a ctl \<Rightarrow> ('a \<Rightarrow> event list \<times> 'b ctl) \<Rightarrow> event list \<times> 'b ctl" where
  "seq m f =
     (case m of
        (e, Ret x) \<Rightarrow> (case f x of (e', c) \<Rightarrow> (e @ e', c))
      | (e, Exit n) \<Rightarrow> (e, Exit n)
      | (e, Blocked) \<Rightarrow> (e, Blocked)
      | (e, Panic) \<Rightarrow> (e, Panic))"

subsection \<open>The command line of bash and of ping\<close>

text \<open>
  \<open>bash -c line\<close> splits the line into words at blanks (space and tab). The model covers
  the lines in which every other character stands for itself, letters, digits and
  \<open>% + , - . / : @ _\<close>, and gives \<open>None\<close> for a line with any other character
  (a quote, \<open>$\<close>, \<open>;\<close>, \<open>*\<close>, a newline, ...). The first word is the command, the
  words after it are its arguments.
\<close>

definition shell_blank :: "char \<Rightarrow> bool" where
  "shell_blank c = (c = CHR '' '' \<or> c = CHR 0x09)"

definition shell_literal :: "char \<Rightarrow> bool" where
  "shell_literal c =
     (let b = (of_char c :: nat) in
      (43 \<le> b \<and> b \<le> 58) \<or> (64 \<le> b \<and> b \<le> 90) \<or> (97 \<le> b \<and> b \<le> 122) \<or> b = 37 \<or> b = 95)"

fun words_from :: "string \<Rightarrow> string \<Rightarrow> string list option" where
  "words_from cur [] = Some (flush cur)"
| "words_from cur (c # cs) =
     (if shell_blank c then map_option (\<lambda>ws. flush cur @ ws) (words_from [] cs)
      else if shell_literal c then words_from (cur @ [c]) cs
      else None)"

definition bash_words :: "string \<Rightarrow> string list option" where
  "bash_words line = words_from [] line"

text \<open>
  \<open>ping\<close> reads its arguments with \<open>getopt\<close>. The options \<open>-I\<close> (interface), \<open>-c\<close>
  (count) and \<open>-W\<close> (time to wait for a reply) take an argument: the rest of the word
  or, when the word ends with the option letter, the next word, whatever it is. A word
  that does not begin with \<open>-\<close>, or is \<open>-\<close> alone, is a destination wherever it stands,
  and \<open>--\<close> ends the options. Without \<open>-c\<close> ping sends packets until it is stopped. The
  other options of ping are outside the model (\<open>None\<close>), as is an option that lacks its
  argument.
\<close>

record ping_args =
  opt_I :: "string option"
  opt_c :: "string option"
  opt_W :: "string option"
  destinations :: "string list"

definition no_args :: ping_args where
  "no_args = \<lparr>opt_I = None, opt_c = None, opt_W = None, destinations = []\<rparr>"

definition set_opt :: "char \<Rightarrow> string \<Rightarrow> ping_args \<Rightarrow> ping_args" where
  "set_opt x a p =
     (if x = CHR ''I'' then p\<lparr>opt_I := Some a\<rparr>
      else if x = CHR ''c'' then p\<lparr>opt_c := Some a\<rparr>
      else p\<lparr>opt_W := Some a\<rparr>)"

fun getopt :: "string list \<Rightarrow> ping_args \<Rightarrow> ping_args option" where
  "getopt [] p = Some p"
| "getopt [w] p =
     (if w = ''--'' then Some p
      else if length w < 2 \<or> hd w \<noteq> CHR ''-'' then Some (p\<lparr>destinations := destinations p @ [w]\<rparr>)
      else if w ! 1 \<notin> set ''IcW'' then None
      else if 2 < length w then Some (set_opt (w ! 1) (drop 2 w) p)
      else None)"
| "getopt (w # a # ws) p =
     (if w = ''--'' then Some (p\<lparr>destinations := destinations p @ a # ws\<rparr>)
      else if length w < 2 \<or> hd w \<noteq> CHR ''-''
        then getopt (a # ws) (p\<lparr>destinations := destinations p @ [w]\<rparr>)
      else if w ! 1 \<notin> set ''IcW'' then None
      else if 2 < length w then getopt (a # ws) (set_opt (w ! 1) (drop 2 w) p)
      else getopt ws (set_opt (w ! 1) a p))"

text \<open>What \<open>ping\<close> is asked when \<open>bash -c line\<close> is run.\<close>

definition ping_request :: "string \<Rightarrow> ping_args option" where
  "ping_request line =
     (case bash_words line of
        None \<Rightarrow> None
      | Some [] \<Rightarrow> None
      | Some (cmd # args) \<Rightarrow> if cmd = ''ping'' then getopt args no_args else None)"

section \<open>The program\<close>

subsection \<open>Data\<close>

record Node =
  DataIp :: string

record Cluster =
  Nodes :: "Node list"

record Status =
  cluster :: Cluster

text \<open>The package-level variables; \<open>nodes = None\<close> is the nil slice.\<close>

record globals =
  nodes :: "string list option"
  localIP :: string

definition init_globals :: globals where
  "init_globals = \<lparr>nodes = None, localIP = []\<rparr>"

definition node_list :: "globals \<Rightarrow> string list" where
  "node_list g = (case nodes g of None \<Rightarrow> [] | Some ns \<Rightarrow> ns)"

text \<open>The command line after \<open>flag.Parse\<close>.\<close>

record flags =
  flag_interface :: string
  flag_frequency :: "64 word"
  flag_ip :: string
  flag_r :: bool

text \<open>
  The environment of a run. \<open>pxctl_cmd w t\<close> is what \<open>pxctl status -j\<close> does when it is
  run at time \<open>t\<close>, where \<open>0\<close> is start-up and \<open>k > 0\<close> is the \<open>k\<close>-th cycle;
  \<open>ping_cmd w k i argv\<close> is what the command of the \<open>i\<close>-th probe launched in cycle \<open>k\<close>
  does; \<open>schedule w k\<close> decides the order in which the probes of cycle \<open>k\<close> complete;
  \<open>unmarshal\<close> is \<open>json.Unmarshal\<close> into a \<open>Status\<close>.
\<close>

record world =
  mkdirall_err :: "string option"
  rotatelogs_err :: "string option"
  hostname_cmd :: cmd_result
  pxctl_cmd :: "nat \<Rightarrow> cmd_result"
  unmarshal :: "string \<Rightarrow> string + Status"
  ping_cmd :: "nat \<Rightarrow> nat \<Rightarrow> string list \<Rightarrow> cmd_result"
  schedule :: "nat \<Rightarrow> nat list"

text \<open>
  The repository holds two variants of the program: the one that collects the probes'
  results over channels (\<open>Concurrent\<close>, logging through logrus) and the earlier one that
  starts the probes and forgets them (\<open>Simple\<close>, logging through package \<open>log\<close>).
  \<open>getNodes\<close> and \<open>getLocalIP\<close> differ in the logger only.
\<close>

datatype variant = Concurrent | Simple

definition Fatalf :: "variant \<Rightarrow> string \<Rightarrow> event" where
  "Fatalf v msg = Log (case v of Concurrent \<Rightarrow> FatalLevel | Simple \<Rightarrow> StdLogger) msg"

definition pxctlBin :: string where
  "pxctlBin = ''/opt/pwx/bin/pxctl''"

subsection \<open>getNodes and getLocalIP\<close>

definition getNodes :: "variant \<Rightarrow> world \<Rightarrow> nat \<Rightarrow> globals \<Rightarrow> event list \<times> globals ctl" where
  "getNodes v w t g =
     (let argv = [pxctlBin, ''status'', ''-j''] in
      case Output (pxctl_cmd w t) of
        None \<Rightarrow> ([Exec argv], Blocked)
      | Some (Inl err) \<Rightarrow>
          ([Exec argv, Fatalf v (Sprintf ''Failed to execute pxctl status command: %v'' [V err])],
           Exit 1)
      | Some (Inr out) \<Rightarrow>
          (case unmarshal w out of
             Inl err \<Rightarrow>
               ([Exec argv, Fatalf v (Sprintf ''Failed to parse JSON output: %v'' [V err])], Exit 1)
           | Inr status \<Rightarrow>
               ([Exec argv], Ret (g\<lparr>nodes := Some (map DataIp (Nodes (cluster status)))\<rparr>))))"

definition getLocalIP :: "variant \<Rightarrow> world \<Rightarrow> globals \<Rightarrow> event list \<times> globals ctl" where
  "getLocalIP v w g =
     (let argv = [''hostname'', ''-I''] in
      case Output (hostname_cmd w) of
        None \<Rightarrow> ([Exec argv], Blocked)
      | Some (Inl err) \<Rightarrow>
          ([Exec argv, Fatalf v (Sprintf ''Failed to execute hostname command: %v'' [V err])],
           Exit 1)
      | Some (Inr out) \<Rightarrow>
          (case Fields out of
             ip0 # _ \<Rightarrow> ([Exec argv], Ret (g\<lparr>localIP := ip0\<rparr>))
           | [] \<Rightarrow> ([Exec argv, Fatalf v ''No IP address returned by hostname command''], Exit 1)))"

text \<open>The two \<open>if\<close> statements of \<open>main\<close> that follow \<open>flag.Parse\<close>, in both variants.\<close>

definition locate :: "variant \<Rightarrow> world \<Rightarrow> flags \<Rightarrow> event list \<times> globals ctl" where
  "locate v w f =
     (if flag_ip f = [] then getLocalIP v w init_globals
      else ([], Ret (init_globals\<lparr>localIP := flag_ip f\<rparr>)))"

definition resolve :: "variant \<Rightarrow> world \<Rightarrow> flags \<Rightarrow> event list \<times> globals ctl" where
  "resolve v w f =
     seq (locate v w f) (\<lambda>g. if nodes g = None then getNodes v w 0 g else ([], Ret g))"

subsection \<open>pingNode\<close>

definition pingTimeout :: int where
  "pingTimeout = 5"

definition pingCmd :: "string \<Rightarrow> string \<Rightarrow> string" where
  "pingCmd interfaceName node =
     Sprintf ''ping -I %s -c 1 -W %d %s'' [S interfaceName, D pingTimeout, S node]"

text \<open>
  \<open>pingNode\<close> of the concurrent variant returns the pair \<open>("", err)\<close>, here \<open>Inl err\<close>,
  or \<open>(string(out), nil)\<close>, here \<open>Inr out\<close>; it is \<open>Blocked\<close> when \<open>cmd.Output()\<close>
  never returns.
\<close>

definition pingNode :: "world \<Rightarrow> nat \<Rightarrow> nat \<Rightarrow> string \<Rightarrow> string \<Rightarrow> event list \<times> (string + string) ctl" where
  "pingNode w k i interfaceName node =
     (let argv = [''bash'', ''-c'', pingCmd interfaceName node] in
      case Output_ctx (ping_cmd w k i argv) of
        None \<Rightarrow> ([Exec argv], Blocked)
      | Some (Inl err) \<Rightarrow>
          ([Exec argv, Log ErrorLevel (Sprintf ''Ping failed on node %s: %v'' [S node, V err])],
           Ret (Inl err))
      | Some (Inr out) \<Rightarrow> ([Exec argv], Ret (Inr out)))"

definition pingCmd_simple :: "string \<Rightarrow> string \<Rightarrow> string" where
  "pingCmd_simple interfaceName node =
     Sprintf ''ping -I %s -c 1 %s'' [S interfaceName, S node]"

definition pingNode_simple :: "world \<Rightarrow> nat \<Rightarrow> nat \<Rightarrow> string \<Rightarrow> string \<Rightarrow> event list \<times> unit ctl" where
  "pingNode_simple w k i interfaceName node =
     (let argv = [''bash'', ''-c'', pingCmd_simple interfaceName node] in
      case Output (ping_cmd w k i argv) of
        None \<Rightarrow> ([Exec argv], Blocked)
      | Some (Inl err) \<Rightarrow>
          ([Exec argv, Log StdLogger (Sprintf ''Ping failed on node %s: %v'' [S node, V err])],
           Ret ())
      | Some (Inr out) \<Rightarrow> ([Exec argv, Stdout out], Ret ()))"

subsection \<open>One cycle of the concurrent variant\<close>

text \<open>
  The \<open>for _, node := range nodes\<close> loop: an entry equal to \<open>localIP\<close> is logged and
  skipped, every other entry starts one goroutine. The result is the log of the skipped
  entries and the list of the nodes a goroutine was started for, in the order of the
  loop.
\<close>

definition skipping :: "variant \<Rightarrow> event" where
  "skipping v = Log (case v of Concurrent \<Rightarrow> InfoLevel | Simple \<Rightarrow> StdLogger) ''skipping local node''"

fun fan_out :: "variant \<Rightarrow> string \<Rightarrow> string list \<Rightarrow> event list \<times> string list" where
  "fan_out v lip [] = ([], [])"
| "fan_out v lip (node # rest) =
     (case fan_out v lip rest of
        (skips, launched) \<Rightarrow>
          if lip = node then (skipping v # skips, launched) else (skips, node # launched))"

text \<open>
  The goroutines run concurrently, so the order in which they act is not fixed by the
  program. It is made an input: with \<open>n\<close> goroutines left, the next choice \<open>c\<close> of the
  schedule takes the one at position \<open>c mod n\<close>; when the choices run out the remaining
  goroutines follow in the order they were started.
\<close>

function complete :: "nat list \<Rightarrow> 'a list \<Rightarrow> 'a list" where
  "complete cs [] = []"
| "complete [] (p # ps) = p # complete [] ps"
| "complete (c # cs) (p # ps) =
     (p # ps) ! (c mod length (p # ps)) #
       complete cs (take (c mod length (p # ps)) (p # ps) @ drop (Suc (c mod length (p # ps))) (p # ps))"
  by pat_completeness auto
termination
  by (relation "measure (\<lambda>(cs, ps). length ps)") auto

text \<open>
  A goroutine of the sweep: it is started for \<open>node\<close>, calls \<open>pingNode\<close> and, when
  that returns, sends the error on \<open>errs\<close> or the output on \<open>results\<close> and lets
  \<open>wg.Done\<close> run. \<open>probes\<close> lists, in the order of launch, the node, the events of
  \<open>pingNode\<close> and how it ends. A goroutine whose \<open>pingNode\<close> never returns sends
  nothing; \<open>sent\<close> are the values of those that return, in the given order.
\<close>

type_synonym probe = "string \<times> event list \<times> (string + string) ctl"

definition probes :: "world \<Rightarrow> nat \<Rightarrow> string \<Rightarrow> string list \<Rightarrow> probe list" where
  "probes w k interfaceName launched =
     map (\<lambda>(i, node). (node, pingNode w k i interfaceName node)) (enumerate 0 launched)"

definition returned :: "probe \<Rightarrow> bool" where
  "returned p = (case snd (snd p) of Ret r \<Rightarrow> True | _ \<Rightarrow> False)"

definition sent :: "probe list \<Rightarrow> (string + string) list" where
  "sent ps = concat (map (\<lambda>p. case snd (snd p) of Ret r \<Rightarrow> [r] | _ \<Rightarrow> []) ps)"

text \<open>
  The two channels are buffered, each with room for \<open>len(nodes)\<close> values. A send on a
  full channel blocks. The main goroutine reads \<open>errs\<close> only once \<open>results\<close> is closed,
  which is after every goroutine has sent, so \<open>fan_in\<close> lets all goroutines send before
  anything is read: a blocked send (\<open>None\<close>) is then a goroutine that never finishes,
  \<open>wg.Wait\<close> never returns and the cycle never ends.
\<close>

record chans =
  results :: "string list"
  errs :: "string list"

definition send :: "nat \<Rightarrow> 'a list \<Rightarrow> 'a \<Rightarrow> 'a list option" where
  "send cap buf x = (if length buf < cap then Some (buf @ [x]) else None)"

fun fan_in :: "nat \<Rightarrow> (string + string) list \<Rightarrow> chans \<Rightarrow> chans option" where
  "fan_in cap [] ch = Some ch"
| "fan_in cap (Inl err # rest) ch =
     (case send cap (errs ch) err of
        None \<Rightarrow> None
      | Some buf \<Rightarrow> fan_in cap rest (ch\<lparr>errs := buf\<rparr>))"
| "fan_in cap (Inr res # rest) ch =
     (case send cap (results ch) res of
        None \<Rightarrow> None
      | Some buf \<Rightarrow> fan_in cap rest (ch\<lparr>results := buf\<rparr>))"

text \<open>
  Of the values the goroutines return, in a given order, those that are sent on
  \<open>results\<close> and those that are sent on \<open>errs\<close>.
\<close>

definition successes :: "(string + string) list \<Rightarrow> string list" where
  "successes rs = concat (map (\<lambda>r. case r of Inl err \<Rightarrow> [] | Inr out \<Rightarrow> [out]) rs)"

definition failures :: "(string + string) list \<Rightarrow> string list" where
  "failures rs = concat (map (\<lambda>r. case r of Inl err \<Rightarrow> [err] | Inr out \<Rightarrow> []) rs)"

text \<open>The two \<open>range\<close> loops of the main goroutine: all of \<open>results\<close>, then all of \<open>errs\<close>.\<close>

definition report :: "chans \<Rightarrow> event list" where
  "report ch =
     map (Log InfoLevel) (results ch) @
     map (\<lambda>err. Log ErrorLevel (Sprintf ''Ping failed: %v'' [V err])) (errs ch)"

text \<open>
  What a cycle has come to when nothing more happens in it: the log of the launching
  loop, the goroutines in the order of the schedule, the values sent on the two
  channels, and whether the channels were closed, which the closing goroutine does after
  \<open>wg.Wait\<close>, that is once every goroutine has returned from \<open>pingNode\<close> and sent.
\<close>

record sweep =
  skipped :: "event list"
  arrivals :: "probe list"
  collected :: chans
  closed :: bool

definition sweep_cycle :: "world \<Rightarrow> string \<Rightarrow> globals \<Rightarrow> nat \<Rightarrow> sweep option" where
  "sweep_cycle w interfaceName g k =
     (case fan_out Concurrent (localIP g) (node_list g) of
        (skips, launched) \<Rightarrow>
          (let arr = complete (schedule w k) (probes w k interfaceName launched) in
           case fan_in (length (node_list g)) (sent arr) \<lparr>results = [], errs = []\<rparr> of
             None \<Rightarrow> None
           | Some ch \<Rightarrow>
               Some \<lparr>skipped = skips, arrivals = arr, collected = ch,
                     closed = list_all returned arr\<rparr>))"

text \<open>
  One iteration of the \<open>for\<close> loop of \<open>main\<close>. The events of the goroutines are placed
  between those of the launching loop and those of the report; the program fixes only the
  order inside each of the three groups, that the timer is started first and that the
  sleep comes last. When the channels are never closed the main goroutine logs the
  values of \<open>results\<close> as they come and then waits in its first \<open>range\<close> loop for ever:
  \<open>errs\<close> is never read and the iteration never reaches its sleep.
\<close>

definition cadence :: "flags \<Rightarrow> Duration" where
  "cadence f = flag_frequency f * Second"

definition cycleDeadline :: Duration where
  "cycleDeadline = 5 * Minute"

definition iteration :: "world \<Rightarrow> flags \<Rightarrow> globals \<Rightarrow> nat \<Rightarrow> event list \<times> unit ctl" where
  "iteration w f g k =
     (case sweep_cycle w (flag_interface f) g k of
        None \<Rightarrow>
          (Timer cycleDeadline #
           fst (fan_out Concurrent (localIP g) (node_list g)) @
           concat (map (\<lambda>p. fst (snd p))
             (probes w k (flag_interface f) (snd (fan_out Concurrent (localIP g) (node_list g))))),
           Blocked)
      | Some s \<Rightarrow>
          if closed s
          then (Timer cycleDeadline #
                skipped s @ concat (map (\<lambda>p. fst (snd p)) (arrivals s)) @ report (collected s) @
                [Sleep (cadence f)],
                Ret ())
          else (Timer cycleDeadline #
                skipped s @ concat (map (\<lambda>p. fst (snd p)) (arrivals s)) @
                map (Log InfoLevel) (results (collected s)),
                Blocked))"

subsection \<open>One cycle of the simple variant\<close>

text \<open>
  \<open>go pingNode(*interfaceName, node)\<close> for every entry that is not \<open>localIP\<close>; nothing
  waits for the goroutines and nothing is read back from them. \<open>probes_simple\<close> lists,
  in the order of launch, the node, the events of its goroutine and whether \<open>pingNode\<close>
  returns.
\<close>

definition probes_simple :: "world \<Rightarrow> nat \<Rightarrow> string \<Rightarrow> string list \<Rightarrow> (string \<times> event list \<times> unit ctl) list" where
  "probes_simple w k interfaceName launched =
     map (\<lambda>(i, node). (node, pingNode_simple w k i interfaceName node)) (enumerate 0 launched)"

definition iteration_simple :: "world \<Rightarrow> flags \<Rightarrow> globals \<Rightarrow> nat \<Rightarrow> event list \<times> unit ctl" where
  "iteration_simple w f g k =
     (case fan_out Simple (localIP g) (node_list g) of
        (skips, launched) \<Rightarrow>
          (skips @
           concat (map (\<lambda>p. fst (snd p))
             (complete (schedule w k) (probes_simple w k (flag_interface f) launched))) @
           [Sleep (cadence f)],
           Ret ()))"

subsection \<open>The scheduler loop and main\<close>

text \<open>
  The \<open>for { ... }\<close> loop has no exit. \<open>loop body k n\<close> runs \<open>n\<close> iterations, the
  cycles \<open>k\<close>, \<open>k + 1\<close>, ...; \<open>forever body k\<close> is the loop itself, whose value is
  \<open>None\<close> when it never leaves.
\<close>

fun loop :: "(nat \<Rightarrow> event list \<times> unit ctl) \<Rightarrow> nat \<Rightarrow> nat \<Rightarrow> event list \<times> unit ctl" where
  "loop body k 0 = ([], Ret ())"
| "loop body k (Suc n) = seq (body k) (\<lambda>_. loop body (Suc k) n)"

partial_function (option) forever :: "(nat \<Rightarrow> event list \<times> unit ctl) \<Rightarrow> nat \<Rightarrow> unit ctl option" where
  "forever body k = (if snd (body k) = Ret () then forever body (Suc k) else Some (snd (body k)))"

text \<open>
  How a run stands after start-up and \<open>n\<close> iterations of the loop: \<open>Running\<close> when the
  loop is about to start its next iteration, \<open>Returned\<close> when \<open>main\<close> has returned.
\<close>

datatype status = Running | Returned | Exited int | Waiting | Panicked

text \<open>
  \<open>setupLogging\<close> returns nil (\<open>False\<close>) when the log directory cannot be made, and
  \<open>main\<close> then dereferences nil at \<open>logger.Info\<close>; \<open>log.Fatalf\<close> ends the process when
  the rotating writer cannot be made. \<open>installService\<close> is one event that carries its
  arguments.
\<close>

definition setupLogging :: "world \<Rightarrow> event list \<times> bool ctl" where
  "setupLogging w =
     (case mkdirall_err w of
        Some err \<Rightarrow> ([], Ret False)
      | None \<Rightarrow>
          (case rotatelogs_err w of
             Some err \<Rightarrow> ([Log StdLogger (Sprintf ''Failed to create rotatelogs: %v'' [V err])], Exit 1)
           | None \<Rightarrow> ([], Ret True)))"

definition startup :: "world \<Rightarrow> flags \<Rightarrow> event list \<times> globals ctl" where
  "startup w f =
     seq (setupLogging w)
       (\<lambda>logger. if \<not> logger then ([], Panic)
                 else seq ([Log InfoLevel ''Set up logging for NW Monitor''], Ret ())
                        (\<lambda>_. resolve Concurrent w f))"

definition main :: "world \<Rightarrow> flags \<Rightarrow> nat \<Rightarrow> event list \<times> status" where
  "main w f n =
     (case seq (startup w f)
             (\<lambda>g. if \<not> flag_r f
                   then ([InstallService (flag_interface f) (flag_frequency f) (localIP g)], Ret False)
                   else seq (loop (iteration w f g) 1 n) (\<lambda>_. ([], Ret True))) of
        (e, Ret looping) \<Rightarrow> (e, if looping then Running else Returned)
      | (e, Exit c) \<Rightarrow> (e, Exited c)
      | (e, Blocked) \<Rightarrow> (e, Waiting)
      | (e, Panic) \<Rightarrow> (e, Panicked))"

definition main_simple :: "world \<Rightarrow> flags \<Rightarrow> nat \<Rightarrow> event list \<times> status" where
  "main_simple w f n =
     (case seq (resolve Simple w f)
             (\<lambda>g. if \<not> flag_r f
                   then ([InstallService (flag_interface f) (flag_frequency f) (localIP g)], Ret False)
                   else seq (loop (iteration_simple w f g) 1 n) (\<lambda>_. ([], Ret True))) of
        (e, Ret looping) \<Rightarrow> (e, if looping then Running else Returned)
      | (e, Exit c) \<Rightarrow> (e, Exited c)
      | (e, Blocked) \<Rightarrow> (e, Waiting)
      | (e, Panic) \<Rightarrow> (e, Panicked))"

section \<open>Describing runs\<close>

text \<open>
  A text is \<open>plain\<close> when none of its bytes is an ASCII white-space character or can
  begin the encoding of another white-space rune (\<open>0xC2\<close>, \<open>0xE1\<close>, \<open>0xE2\<close>, \<open>0xE3\<close>);
  an address written in digits, letters, dots and colons is plain. It is \<open>blank\<close> when
  all its bytes are ASCII white space.
\<close>

definition space_lead :: "nat \<Rightarrow> bool" where
  "space_lead b = (ascii_space b \<or> b = 0xC2 \<or> b = 0xE1 \<or> b = 0xE2 \<or> b = 0xE3)"

definition plain :: "string \<Rightarrow> bool" where
  "plain s = list_all (\<lambda>c. \<not> space_lead (of_char c)) s"

definition blank :: "string \<Rightarrow> bool" where
  "blank s = list_all (\<lambda>c. ascii_space (of_char c)) s"

text \<open>The entries of the peer list other than the local address, with their repetitions.\<close>

definition non_self_peers :: "globals \<Rightarrow> string list" where
  "non_self_peers g = filter (\<lambda>node. localIP g \<noteq> node) (node_list g)"

text \<open>
  The two variants side by side: the program, one iteration of its loop, what it logs
  before it looks for its address, and whether it gets that far (the concurrent variant
  sets up its logger first).
\<close>

definition program :: "variant \<Rightarrow> world \<Rightarrow> flags \<Rightarrow> nat \<Rightarrow> event list \<times> status" where
  "program v = (case v of Concurrent \<Rightarrow> main | Simple \<Rightarrow> main_simple)"

definition iteration_of :: "variant \<Rightarrow> world \<Rightarrow> flags \<Rightarrow> globals \<Rightarrow> nat \<Rightarrow> event list \<times> unit ctl" where
  "iteration_of v = (case v of Concurrent \<Rightarrow> iteration | Simple \<Rightarrow> iteration_simple)"

definition prelude :: "variant \<Rightarrow> event list" where
  "prelude v = (case v of Concurrent \<Rightarrow> [Log InfoLevel ''Set up logging for NW Monitor''] | Simple \<Rightarrow> [])"

definition logging_ok :: "variant \<Rightarrow> world \<Rightarrow> bool" where
  "logging_ok v w =
     (case v of Concurrent \<Rightarrow> mkdirall_err w = None \<and> rotatelogs_err w = None | Simple \<Rightarrow> True)"

text \<open>
  A cycle of the concurrent variant in which every call of \<open>pingNode\<close> returns, and
  the same for an iteration of either variant: the simple variant waits for no probe.
\<close>

definition cycle_returns :: "world \<Rightarrow> string \<Rightarrow> globals \<Rightarrow> nat \<Rightarrow> bool" where
  "cycle_returns w interfaceName g k =
     list_all returned (probes w k interfaceName (non_self_peers g))"

definition completes :: "variant \<Rightarrow> world \<Rightarrow> flags \<Rightarrow> globals \<Rightarrow> nat \<Rightarrow> bool" where
  "completes v w f g k =
     (case v of Concurrent \<Rightarrow> cycle_returns w (flag_interface f) g k | Simple \<Rightarrow> True)"

text \<open>
  The lines of the log at \<open>InfoLevel\<close> (the outputs of the probes and the notes of the
  launching loop) and the lines by which the report of a cycle tells a failure.
\<close>

definition is_info :: "event \<Rightarrow> bool" where
  "is_info e = (case e of Log l msg \<Rightarrow> l = InfoLevel | _ \<Rightarrow> False)"

definition failure_report :: "event \<Rightarrow> bool" where
  "failure_report e =
     (case e of Log l msg \<Rightarrow> l = ErrorLevel \<and> prefix ''Ping failed: '' msg | _ \<Rightarrow> False)"

definition is_Sleep :: "event \<Rightarrow> bool" where
  "is_Sleep e = (case e of Sleep d \<Rightarrow> True | _ \<Rightarrow> False)"

definition is_Exec :: "event \<Rightarrow> bool" where
  "is_Exec e = (case e of Exec argv \<Rightarrow> True | _ \<Rightarrow> False)"

text \<open>
  The messages by which this program reports that the cluster membership could not be
  fetched; the output of a successful probe is logged at \<open>InfoLevel\<close> and is no report
  of the program, whatever its text.
\<close>

definition fetch_failure_report :: "event \<Rightarrow> bool" where
  "fetch_failure_report e =
     (case e of
        Log l msg \<Rightarrow>
          l \<noteq> InfoLevel \<and>
          (prefix ''Failed to execute pxctl status command'' msg \<or>
           prefix ''Failed to parse JSON output'' msg)
      | _ \<Rightarrow> False)"

text \<open>
  What the probes of a cycle of the simple variant let the operator see: the output a
  probe prints or the failure it logs. The main goroutine itself receives nothing.
\<close>

definition outcomes_simple :: "world \<Rightarrow> string \<Rightarrow> globals \<Rightarrow> nat \<Rightarrow> event list" where
  "outcomes_simple w interfaceName g k =
     filter (\<lambda>e. \<not> is_Exec e)
       (concat (map (\<lambda>p. fst (snd p))
          (probes_simple w k interfaceName (snd (fan_out Simple (localIP g) (node_list g))))))"

subsection \<open>Example runs\<close>

text \<open>
  A cluster of three nodes seen from \<open>10.0.0.2\<close>. The membership source answers at
  start-up and during the cycles 1 to 4 and fails from cycle 5 on; the first probe of
  every cycle (to \<open>10.0.0.1\<close>) gets its reply, the second (to \<open>10.0.0.3\<close>) hangs and
  comes first in the schedule.
\<close>

definition status_ex :: Status where
  "status_ex =
     \<lparr>cluster = \<lparr>Nodes = [\<lparr>DataIp = ''10.0.0.1''\<rparr>, \<lparr>DataIp = ''10.0.0.2''\<rparr>, \<lparr>DataIp = ''10.0.0.3''\<rparr>]\<rparr>\<rparr>"

definition world_ex :: world where
  "world_ex =
     \<lparr>mkdirall_err = None,
      rotatelogs_err = None,
      hostname_cmd = Finished (''10.0.0.2 172.17.0.1 '' @ [CHR 0x0A]),
      pxctl_cmd = (\<lambda>t. if t < 5 then Finished ''status'' else Failed ''exit status 1''),
      unmarshal = (\<lambda>out. if out = ''status'' then Inr status_ex
                          else Inl ''unexpected end of JSON input''),
      ping_cmd = (\<lambda>k i argv. if i = 0 then Finished ''1 received'' else Hangs),
      schedule = (\<lambda>k. [1])\<rparr>"

definition flags_ex :: flags where
  "flags_ex = \<lparr>flag_interface = ''eth0'', flag_frequency = 3, flag_ip = [], flag_r = True\<rparr>"

text \<open>A cadence of 9223372037 seconds, which \<open>flag.Int\<close> accepts.\<close>

definition flags_long :: flags where
  "flags_long = flags_ex\<lparr>flag_frequency := 9223372037\<rparr>"

definition globals_ex :: globals where
  "globals_ex = \<lparr>nodes = Some [''10.0.0.1'', ''10.0.0.2'', ''10.0.0.3''], localIP = ''10.0.0.2''\<rparr>"

text \<open>The same cluster when in cycle 2 the first probe fails as well.\<close>

definition world_down :: world where
  "world_down =
     world_ex\<lparr>ping_cmd :=
       (ping_cmd world_ex)(2 := (ping_cmd world_ex 2)(0 := (\<lambda>argv. Failed ''exit status 1'')))\<rparr>"

text \<open>The same cluster when the second probe of every cycle lingers.\<close>

definition world_stuck :: world where
  "world_stuck =
     world_ex\<lparr>ping_cmd := (\<lambda>k i argv. if i = 0 then Finished ''1 received'' else Lingers)\<rparr>"

text \<open>The command line \<open>-r\<close>: no interface is named and \<open>-interface\<close> has its default.\<close>

definition flags_default :: flags where
  "flags_default = \<lparr>flag_interface = [], flag_frequency = 3, flag_ip = [], flag_r = True\<rparr>"

text \<open>The address given on the command line, and four ways in which start-up fails.\<close>

definition flags_ip :: flags where
  "flags_ip = flags_ex\<lparr>flag_ip := ''10.0.0.3''\<rparr>"

definition world_no_address :: world where
  "world_no_address = world_ex\<lparr>hostname_cmd := Finished [CHR 0x0A]\<rparr>"

definition world_no_hostname :: world where
  "world_no_hostname = world_ex\<lparr>hostname_cmd := Failed ''exit status 1''\<rparr>"

definition world_no_pxctl :: world where
  "world_no_pxctl = world_ex\<lparr>pxctl_cmd := (\<lambda>t. Failed ''exit status 1'')\<rparr>"

definition world_bad_json :: world where
  "world_bad_json = world_ex\<lparr>unmarshal := (\<lambda>out. Inl ''unexpected end of JSON input'')\<rparr>"

text \<open>The same cluster with a membership source that never fails.\<close>

definition world_steady :: world where
  "world_steady = world_ex\<lparr>pxctl_cmd := (\<lambda>t. Finished ''status'')\<rparr>"

section \<open>Properties\<close>

subsection \<open>The command line of a probe\<close>

lemma pingCmd_eq: "pingCmd i n = ''ping -I '' @ i @ '' -c 1 -W 5 '' @ n"
  by (simp add: pingCmd_def verb_def itoa_def pingTimeout_def digits.simps digit_def)

lemma pingCmd_simple_eq: "pingCmd_simple i n = ''ping -I '' @ i @ '' -c 1 '' @ n"
  by (simp add: pingCmd_simple_def verb_def)

subsection \<open>Launching and completing\<close>

lemma fan_out_eq:
  "fan_out v lip ns = (replicate (count_list ns lip) (skipping v), filter (\<lambda>n. lip \<noteq> n) ns)"
  by (induction ns) auto

lemma mset_pick:
  assumes i: "i < length xs"
  shows "add_mset (xs ! i) (mset (take i xs @ drop (Suc i) xs)) = mset xs"
proof -
  have "mset xs = mset (take i xs @ xs ! i # drop (Suc i) xs)"
    using id_take_nth_drop [OF i] by simp
  then show ?thesis by simp
qed

lemma mset_complete: "mset (complete cs ps) = mset ps"
proof (induction cs ps rule: complete.induct)
  case (3 c cs p ps)
  let ?xs = "p # ps"
  let ?i = "c mod length ?xs"
  have i: "?i < length ?xs" by simp
  have "mset (complete (c # cs) ?xs) =
        add_mset (?xs ! ?i) (mset (complete cs (take ?i ?xs @ drop (Suc ?i) ?xs)))"
    by (simp only: complete.simps mset.simps)
  also have "\<dots> = add_mset (?xs ! ?i) (mset (take ?i ?xs @ drop (Suc ?i) ?xs))"
    using 3 by simp
  also have "\<dots> = mset ?xs" by (rule mset_pick [OF i])
  finally show ?case .
qed simp_all

lemma length_complete: "length (complete cs ps) = length ps"
  using mset_complete [of cs ps] by (metis size_mset)

lemma set_complete: "set (complete cs ps) = set ps"
  using mset_complete [of cs ps] by (metis set_mset_mset)

text \<open>Every order of completion is the order of some schedule.\<close>

lemma complete_any_order: "mset ys = mset xs \<Longrightarrow> \<exists>cs. complete cs xs = ys"
proof (induction ys arbitrary: xs)
  case Nil
  then show ?case by simp
next
  case (Cons y ys)
  then have "y \<in> set xs" by (metis list.set_intros(1) set_mset_mset)
  then obtain i where i: "i < length xs" and y: "xs ! i = y" by (auto simp: in_set_conv_nth)
  let ?r = "take i xs @ drop (Suc i) xs"
  have "add_mset y (mset ?r) = mset xs" using mset_pick [OF i] y by simp
  moreover have "add_mset y (mset ys) = mset xs" using Cons.prems by simp
  ultimately have "mset ys = mset ?r" by (metis add_mset_remove_trivial)
  from Cons.IH [OF this] obtain cs where cs: "complete cs ?r = ys" by blast
  from i obtain p ps where xs: "xs = p # ps" by (cases xs) auto
  have "i mod length (p # ps) = i" using i xs by simp
  then have "complete (i # cs) (p # ps) =
             (p # ps) ! i # complete cs (take i (p # ps) @ drop (Suc i) (p # ps))"
    by (simp only: complete.simps)
  then have "complete (i # cs) xs = y # ys" using cs y xs by simp
  then show ?case by blast
qed

lemma length_successes_failures: "length (successes rs) + length (failures rs) = length rs"
  by (induction rs) (auto simp: successes_def failures_def split: sum.splits)

lemma fan_in_room:
  "length (results ch) + length rs \<le> cap \<Longrightarrow> length (errs ch) + length rs \<le> cap \<Longrightarrow>
   fan_in cap rs ch = Some \<lparr>results = results ch @ successes rs, errs = errs ch @ failures rs\<rparr>"
proof (induction cap rs ch rule: fan_in.induct)
  case (1 cap ch)
  then show ?case by (simp add: successes_def failures_def)
next
  case (2 cap err rest ch)
  then show ?case by (simp add: send_def successes_def failures_def)
next
  case (3 cap res rest ch)
  then show ?case by (simp add: send_def successes_def failures_def)
qed

lemma length_probes: "length (probes w k i l) = length l"
  by (simp add: probes_def)

lemma map_fst_tagged: "map fst (map (\<lambda>(i, node). (node, h i node)) (enumerate n l)) = l"
  by (induction l arbitrary: n) simp_all

lemma map_fst_probes: "map fst (probes w k i l) = l"
  unfolding probes_def by (rule map_fst_tagged)

lemma map_fst_probes_simple: "map fst (probes_simple w k i l) = l"
  unfolding probes_simple_def by (rule map_fst_tagged)

lemma length_sent: "length (sent ps) = length (filter returned ps)"
  by (induction ps) (auto simp: sent_def returned_def split: ctl.splits)

lemma returned_complete: "list_all returned (complete cs ps) = list_all returned ps"
  by (simp add: list_all_iff set_complete)

lemma filter_returned_complete:
  "length (filter returned (complete cs ps)) = length (filter returned ps)"
  using mset_complete [of cs ps] by (metis mset_filter size_mset)

text \<open>
  The channels have room for every goroutine of a cycle, so no send blocks: a cycle
  fails to reach its report only when a goroutine never returns from \<open>pingNode\<close>.
\<close>

lemma sweep_cycle_eq:
  "sweep_cycle w i g k =
     Some \<lparr>skipped = replicate (count_list (node_list g) (localIP g)) (skipping Concurrent),
           arrivals = complete (schedule w k) (probes w k i (non_self_peers g)),
           collected =
             \<lparr>results = successes (sent (complete (schedule w k) (probes w k i (non_self_peers g)))),
              errs = failures (sent (complete (schedule w k) (probes w k i (non_self_peers g))))\<rparr>,
           closed = cycle_returns w i g k\<rparr>"
proof -
  let ?arr = "complete (schedule w k) (probes w k i (non_self_peers g))"
  have "length (sent ?arr) \<le> length ?arr"
    by (simp add: length_sent)
  also have "\<dots> \<le> length (node_list g)"
    by (simp add: length_complete length_probes non_self_peers_def)
  finally have "fan_in (length (node_list g)) (sent ?arr) \<lparr>results = [], errs = []\<rparr> =
             Some \<lparr>results = successes (sent ?arr), errs = failures (sent ?arr)\<rparr>"
    using fan_in_room [of "\<lparr>results = [], errs = []\<rparr>" "sent ?arr" "length (node_list g)"]
    by simp
  then show ?thesis
    by (simp add: sweep_cycle_def fan_out_eq Let_def cycle_returns_def returned_complete
        non_self_peers_def)
qed

subsection \<open>When the loop goes on\<close>

lemma iteration_status:
  "snd (iteration w f g k) = (if cycle_returns w (flag_interface f) g k then Ret () else Blocked)"
  by (simp add: iteration_def sweep_cycle_eq)

lemma iteration_simple_Ret: "snd (iteration_simple w f g k) = Ret ()"
  by (simp add: iteration_simple_def fan_out_eq)

lemma iteration_of_status:
  "snd (iteration_of v w f g k) = (if completes v w f g k then Ret () else Blocked)"
  by (cases v) (simp_all add: iteration_of_def completes_def iteration_status iteration_simple_Ret)

lemma loop_status:
  assumes "\<And>j. snd (b j) = (if c j then Ret () else Blocked)"
  shows "snd (loop b k n) = (if list_all c [k..<k + n] then Ret () else Blocked)"
proof (induction n arbitrary: k)
  case 0
  then show ?case by simp
next
  case (Suc n)
  have u: "[k..<k + Suc n] = k # [Suc k..<Suc k + n]"
    by (simp add: upt_rec [of k])
  obtain e where e: "b k = (e, if c k then Ret () else Blocked)"
    using assms [of k] by (cases "b k") auto
  obtain e' where e': "loop b (Suc k) n = (e', if list_all c [Suc k..<Suc k + n] then Ret () else Blocked)"
    using Suc.IH [of "Suc k"] by (cases "loop b (Suc k) n") auto
  show ?case
    unfolding u by (simp add: seq_def e e')
qed

lemma loop_Ret: "(\<And>j. snd (b j) = Ret ()) \<Longrightarrow> snd (loop b k n) = Ret ()"
  using loop_status [of b "\<lambda>j. True" k n] by (simp add: list_all_iff)

lemma forever_Some:
  assumes "forever body k = Some y"
  shows "\<exists>j. snd (body j) \<noteq> Ret ()"
proof (rule forever.raw_induct [where P = "\<lambda>b k y. \<exists>j. snd (b j) \<noteq> Ret ()", OF _ assms])
  fix fv :: "(nat \<Rightarrow> event list \<times> unit ctl) \<Rightarrow> nat \<Rightarrow> unit ctl option" and b k y
  assume ih: "\<And>k' b' y'. fv k' b' = Some y' \<Longrightarrow> \<exists>j. snd (k' j) \<noteq> Ret ()"
    and st: "(if snd (b k) = Ret () then fv b (Suc k) else Some (snd (b k))) = Some y"
  show "\<exists>j. snd (b j) \<noteq> Ret ()"
  proof (cases "snd (b k) = Ret ()")
    case True
    with st have "fv b (Suc k) = Some y" by simp
    from ih [OF this] show ?thesis .
  next
    case False
    then show ?thesis by blast
  qed
qed

lemma forever_None:
  assumes b: "\<And>k. snd (body k) = Ret ()"
  shows "forever body k = None"
proof (cases "forever body k")
  case (Some y)
  from forever_Some [OF this] b show ?thesis by simp
qed simp

subsection \<open>Splitting at white space\<close>

lemma space_len_plain: "\<not> space_lead b \<Longrightarrow> space_len (b # r) = 0"
  by (auto simp: space_len_def space_lead_def)

lemma space_len_ascii: "ascii_space b \<Longrightarrow> space_len (b # r) = 1"
  by (simp add: space_len_def)

lemma fields_from_plain:
  "plain tok \<Longrightarrow> fields_from cur (tok @ rest) = fields_from (cur @ tok) rest"
  by (induction tok arbitrary: cur) (simp_all add: plain_def space_len_plain)

lemma fields_from_space:
  "ascii_space (of_char c) \<Longrightarrow> fields_from cur (c # rest) = flush cur @ fields_from [] rest"
  by (simp add: space_len_ascii)

lemma fields_from_blank: "blank pre \<Longrightarrow> fields_from [] (pre @ rest) = fields_from [] rest"
  by (induction pre) (simp_all add: blank_def space_len_ascii flush_def)

text \<open>
  A plain word that follows blanks and is followed by white space, or by nothing, is the
  first field.
\<close>

lemma Fields_first_token:
  assumes "blank pre" "plain tok" "tok \<noteq> []"
    and "rest = [] \<or> ascii_space (of_char (hd rest))"
  shows "Fields (pre @ tok @ rest) = tok # Fields rest"
proof (cases rest)
  case Nil
  then show ?thesis
    using assms fields_from_blank [of pre "tok @ []"] fields_from_plain [of tok "[]" "[]"]
    by (simp add: Fields_def flush_def)
next
  case (Cons c r)
  then have c: "ascii_space (of_char c)" using assms(4) by simp
  have "Fields (pre @ tok @ rest) = fields_from tok (c # r)"
    using assms(1,2) Cons fields_from_blank [of pre "tok @ rest"]
      fields_from_plain [of tok "[]" rest]
    by (simp add: Fields_def)
  also have "\<dots> = tok # fields_from [] r"
    using fields_from_space [OF c] assms(3) by (simp add: flush_def)
  also have "fields_from [] r = Fields rest"
    using fields_from_space [OF c, of "[]" r] Cons by (simp add: Fields_def flush_def)
  finally show ?thesis .
qed

lemma Fields_blank: "blank s \<Longrightarrow> Fields s = []"
  using fields_from_blank [of s "[]"] by (simp add: Fields_def flush_def)

subsection \<open>What ping is asked\<close>

lemma literal_not_blank: "shell_literal c \<Longrightarrow> \<not> shell_blank c"
  by (auto simp: shell_literal_def shell_blank_def Let_def)

lemma words_from_literal:
  "list_all shell_literal tok \<Longrightarrow> words_from cur (tok @ rest) = words_from (cur @ tok) rest"
  by (induction tok arbitrary: cur) (simp_all add: literal_not_blank)

lemma words_from_last:
  "list_all shell_literal tok \<Longrightarrow> words_from cur tok = Some (flush (cur @ tok))"
  using words_from_literal [of tok cur "[]"] by simp

lemma literal_chars:
  "shell_literal CHR ''p''" "shell_literal CHR ''i''" "shell_literal CHR ''n''" "shell_literal CHR ''g''"
  "shell_literal CHR ''-''" "shell_literal CHR ''I''" "shell_literal CHR ''c''" "shell_literal CHR ''1''"
  "shell_literal CHR ''W''" "shell_literal CHR ''5''" "shell_blank CHR '' ''"
  by (simp_all add: shell_literal_def shell_blank_def)

text \<open>
  The words of the command line of a probe, for an interface name and a node written
  in literal characters. An empty interface name or node leaves no word behind.
\<close>

lemma bash_words_pingCmd:
  assumes "list_all shell_literal i" "list_all shell_literal n"
  shows "bash_words (pingCmd i n) =
         Some ([''ping'', ''-I''] @ flush i @ [''-c'', ''1'', ''-W'', ''5''] @ flush n)"
  using words_from_literal [OF assms(1), of "[]"] words_from_last [OF assms(2), of "[]"]
  by (simp add: pingCmd_eq bash_words_def literal_chars literal_not_blank flush_def)

lemma bash_words_pingCmd_simple:
  assumes "list_all shell_literal i" "list_all shell_literal n"
  shows "bash_words (pingCmd_simple i n) =
         Some ([''ping'', ''-I''] @ flush i @ [''-c'', ''1''] @ flush n)"
  using words_from_literal [OF assms(1), of "[]"] words_from_last [OF assms(2), of "[]"]
  by (simp add: pingCmd_simple_eq bash_words_def literal_chars literal_not_blank flush_def)

text \<open>
  With an interface name and a node that are words, the node not beginning with \<open>-\<close>,
  ping is asked for one packet to that node on that interface.
\<close>

lemma ping_request_pingCmd:
  assumes "list_all shell_literal i" "i \<noteq> []" "list_all shell_literal n" "n \<noteq> []" "hd n \<noteq> CHR ''-''"
  shows "ping_request (pingCmd i n) =
         Some \<lparr>opt_I = Some i, opt_c = Some ''1'', opt_W = Some ''5'', destinations = [n]\<rparr>"
  using assms
  by (cases n) (simp_all add: ping_request_def bash_words_pingCmd flush_def set_opt_def no_args_def)

lemma ping_request_pingCmd_simple:
  assumes "list_all shell_literal i" "i \<noteq> []" "list_all shell_literal n" "n \<noteq> []" "hd n \<noteq> CHR ''-''"
  shows "ping_request (pingCmd_simple i n) =
         Some \<lparr>opt_I = Some i, opt_c = Some ''1'', opt_W = None, destinations = [n]\<rparr>"
  using assms
  by (cases n)
     (simp_all add: ping_request_def bash_words_pingCmd_simple flush_def set_opt_def no_args_def)

subsection \<open>Durations\<close>

lemma sint_seconds:
  fixes x :: "64 word"
  assumes "0 \<le> sint x" "sint x \<le> 9223372036"
  shows "sint (x * Second) = sint x * 1000000000"
proof -
  have "sint (x * Second) = signed_take_bit 63 (sint x * sint Second)"
    by (simp add: sint_word_ariths)
  also have "sint Second = 1000000000" by (simp add: Second_def)
  also have "signed_take_bit 63 (sint x * 1000000000) = sint x * 1000000000"
    using assms by (intro signed_take_bit_int_eq_self) auto
  finally show ?thesis .
qed

subsection \<open>What a cycle collects\<close>

lemma launched_eq: "snd (fan_out v (localIP g) (node_list g)) = non_self_peers g"
  by (simp add: fan_out_eq non_self_peers_def)

lemma sweep_cycle_Some:
  "\<exists>s. sweep_cycle w i g k = Some s \<and>
       skipped s = replicate (count_list (node_list g) (localIP g)) (skipping Concurrent) \<and>
       arrivals s = complete (schedule w k) (probes w k i (non_self_peers g)) \<and>
       results (collected s) = successes (sent (arrivals s)) \<and>
       errs (collected s) = failures (sent (arrivals s)) \<and>
       closed s = cycle_returns w i g k"
  by (simp add: sweep_cycle_eq)

lemma report_eq:
  "report ch = map (Log InfoLevel) (results ch) @
               map (\<lambda>err. Log ErrorLevel (''Ping failed: '' @ err)) (errs ch)"
  by (simp add: report_def verb_def)

lemma arrivals_peers:
  "mset (map fst (complete cs (probes w k i l))) = mset l"
  using mset_complete [of cs "probes w k i l"] map_fst_probes [of w k i l]
  by (metis mset_map)

lemma sent_returned: "list_all returned ps \<Longrightarrow> length (sent ps) = length ps"
  by (simp add: length_sent list_all_iff)

lemma in_sent: "p \<in> set ps \<Longrightarrow> snd (snd p) = Ret r \<Longrightarrow> r \<in> set (sent ps)"
  by (induction ps) (auto simp: sent_def)

lemma in_successes: "Inr out \<in> set rs \<Longrightarrow> out \<in> set (successes rs)"
  by (induction rs) (auto simp: successes_def)

lemma in_failures: "Inl err \<in> set rs \<Longrightarrow> err \<in> set (failures rs)"
  by (induction rs) (auto simp: failures_def)

subsection \<open>The commands a cycle runs\<close>

lemma pingCmd_inj: "pingCmd i n = pingCmd i m \<Longrightarrow> n = m"
  by (simp add: pingCmd_eq)

lemma pingCmd_simple_inj: "pingCmd_simple i n = pingCmd_simple i m \<Longrightarrow> n = m"
  by (simp add: pingCmd_simple_eq)

lemma Exec_pingNode:
  "Exec argv \<in> set (fst (pingNode w k i iface n)) \<Longrightarrow> argv = [''bash'', ''-c'', pingCmd iface n]"
  by (auto simp: pingNode_def Let_def split: option.splits sum.splits)

lemma Exec_pingNode_simple:
  "Exec argv \<in> set (fst (pingNode_simple w k i iface n)) \<Longrightarrow>
   argv = [''bash'', ''-c'', pingCmd_simple iface n]"
  by (auto simp: pingNode_simple_def Let_def split: option.splits sum.splits)

lemma probe_in_probes:
  "p \<in> set (probes w k iface l) \<Longrightarrow> \<exists>i n. n \<in> set l \<and> p = (n, pingNode w k i iface n)"
  by (auto simp: probes_def in_set_enumerate_eq)

lemma probe_in_probes_simple:
  "p \<in> set (probes_simple w k iface l) \<Longrightarrow>
   \<exists>i n. n \<in> set l \<and> p = (n, pingNode_simple w k i iface n)"
  by (auto simp: probes_simple_def in_set_enumerate_eq)

lemma iteration_events:
  "fst (iteration w f g k) =
     Timer cycleDeadline #
     replicate (count_list (node_list g) (localIP g)) (skipping Concurrent) @
     concat (map (\<lambda>p. fst (snd p))
       (complete (schedule w k) (probes w k (flag_interface f) (non_self_peers g)))) @
     map (Log InfoLevel)
       (successes (sent (complete (schedule w k) (probes w k (flag_interface f) (non_self_peers g))))) @
     (if cycle_returns w (flag_interface f) g k
      then map (\<lambda>err. Log ErrorLevel (''Ping failed: '' @ err))
             (failures (sent (complete (schedule w k)
                (probes w k (flag_interface f) (non_self_peers g))))) @
           [Sleep (cadence f)]
      else [])"
  by (simp add: iteration_def sweep_cycle_eq report_eq)

lemma iteration_simple_events:
  "fst (iteration_simple w f g k) =
     replicate (count_list (node_list g) (localIP g)) (skipping Simple) @
     concat (map (\<lambda>p. fst (snd p))
       (complete (schedule w k) (probes_simple w k (flag_interface f) (non_self_peers g)))) @
     [Sleep (cadence f)]"
  by (simp add: iteration_simple_def fan_out_eq non_self_peers_def)

lemma Exec_iteration:
  assumes "Exec argv \<in> set (fst (iteration w f g k))"
  shows "\<exists>n \<in> set (non_self_peers g). argv = [''bash'', ''-c'', pingCmd (flag_interface f) n]"
proof -
  from assms have "Exec argv \<in> set (concat (map (\<lambda>p. fst (snd p))
      (complete (schedule w k) (probes w k (flag_interface f) (non_self_peers g)))))"
    unfolding iteration_events by (auto simp: skipping_def split: if_splits)
  then obtain p where p: "p \<in> set (probes w k (flag_interface f) (non_self_peers g))"
    and e: "Exec argv \<in> set (fst (snd p))"
    by (auto simp: set_complete)
  from probe_in_probes [OF p] e show ?thesis
    using Exec_pingNode by fastforce
qed

lemma Exec_iteration_simple:
  assumes "Exec argv \<in> set (fst (iteration_simple w f g k))"
  shows "\<exists>n \<in> set (non_self_peers g). argv = [''bash'', ''-c'', pingCmd_simple (flag_interface f) n]"
proof -
  from assms have "Exec argv \<in> set (concat (map (\<lambda>p. fst (snd p))
      (complete (schedule w k) (probes_simple w k (flag_interface f) (non_self_peers g)))))"
    unfolding iteration_simple_events by (auto simp: skipping_def)
  then obtain p where p: "p \<in> set (probes_simple w k (flag_interface f) (non_self_peers g))"
    and e: "Exec argv \<in> set (fst (snd p))"
    by (auto simp: set_complete)
  from probe_in_probes_simple [OF p] e show ?thesis
    using Exec_pingNode_simple by fastforce
qed

lemma self_not_peer: "localIP g \<notin> set (non_self_peers g)"
  by (simp add: non_self_peers_def)

lemma nth_probes:
  "j < length l \<Longrightarrow> probes w k iface l ! j = (l ! j, pingNode w k j iface (l ! j))"
  by (simp add: probes_def nth_enumerate_eq)

lemma nth_probes_simple:
  "j < length l \<Longrightarrow> probes_simple w k iface l ! j = (l ! j, pingNode_simple w k j iface (l ! j))"
  by (simp add: probes_simple_def nth_enumerate_eq)

subsection \<open>Start-up\<close>

lemma locate_flag:
  "flag_ip f \<noteq> [] \<Longrightarrow> locate v w f = ([], Ret (init_globals\<lparr>localIP := flag_ip f\<rparr>))"
  by (simp add: locate_def)

lemma locate_token:
  "flag_ip f = [] \<Longrightarrow> hostname_cmd w = Finished out \<Longrightarrow> Fields out = tok # toks \<Longrightarrow>
   locate v w f = ([Exec [''hostname'', ''-I'']], Ret (init_globals\<lparr>localIP := tok\<rparr>))"
  by (simp add: locate_def getLocalIP_def Output_def)

lemma locate_empty:
  "flag_ip f = [] \<Longrightarrow> hostname_cmd w = Finished out \<Longrightarrow> Fields out = [] \<Longrightarrow>
   locate v w f =
     ([Exec [''hostname'', ''-I''], Fatalf v ''No IP address returned by hostname command''], Exit 1)"
  by (simp add: locate_def getLocalIP_def Output_def)

lemma locate_failed:
  "flag_ip f = [] \<Longrightarrow> hostname_cmd w = Failed err \<Longrightarrow>
   locate v w f =
     ([Exec [''hostname'', ''-I''], Fatalf v (''Failed to execute hostname command: '' @ err)], Exit 1)"
  by (simp add: locate_def getLocalIP_def Output_def verb_def)

lemma locate_Ret: "locate v w f = (e, Ret g) \<Longrightarrow> nodes g = None"
  by (auto simp: locate_def getLocalIP_def Output_def init_globals_def Let_def
      split: if_splits option.splits sum.splits list.splits cmd_result.splits)

lemma resolve_locate_Exit: "locate v w f = (e, Exit c) \<Longrightarrow> resolve v w f = (e, Exit c)"
  by (simp add: resolve_def seq_def)

lemma resolve_getNodes:
  "locate v w f = (e, Ret g) \<Longrightarrow> resolve v w f = (e @ fst (getNodes v w 0 g), snd (getNodes v w 0 g))"
  using locate_Ret [of v w f e g] by (simp add: resolve_def seq_def split: prod.splits)

lemma getNodes_failed:
  "pxctl_cmd w t = Failed err \<Longrightarrow>
   getNodes v w t g =
     ([Exec [pxctlBin, ''status'', ''-j''],
       Fatalf v (''Failed to execute pxctl status command: '' @ err)], Exit 1)"
  by (simp add: getNodes_def Output_def verb_def)

lemma getNodes_unparsed:
  "pxctl_cmd w t = Finished out \<Longrightarrow> unmarshal w out = Inl err \<Longrightarrow>
   getNodes v w t g =
     ([Exec [pxctlBin, ''status'', ''-j''],
       Fatalf v (''Failed to parse JSON output: '' @ err)], Exit 1)"
  by (simp add: getNodes_def Output_def verb_def)

lemma getNodes_parsed:
  "pxctl_cmd w t = Finished out \<Longrightarrow> unmarshal w out = Inr st \<Longrightarrow>
   getNodes v w t g =
     ([Exec [pxctlBin, ''status'', ''-j'']], Ret (g\<lparr>nodes := Some (map DataIp (Nodes (cluster st)))\<rparr>))"
  by (simp add: getNodes_def Output_def)

lemma startup_resolve:
  "logging_ok Concurrent w \<Longrightarrow>
   startup w f = (prelude Concurrent @ fst (resolve Concurrent w f), snd (resolve Concurrent w f))"
  by (simp add: startup_def setupLogging_def logging_ok_def prelude_def seq_def split: prod.splits)

lemma program_Exit:
  assumes "logging_ok v w" "resolve v w f = (e, Exit c)"
  shows "program v w f n = (prelude v @ e, Exited c)"
proof (cases v)
  case Concurrent
  then show ?thesis
    using assms startup_resolve [of w f]
    by (simp add: program_def main_def seq_def)
next
  case Simple
  then show ?thesis
    using assms by (simp add: program_def main_simple_def seq_def prelude_def)
qed

text \<open>
  A run in direct mode whose start-up succeeds is the start-up followed by the loop; it
  is about to start another iteration when every cycle so far has completed, and waits
  inside a cycle otherwise.
\<close>

lemma loop_iteration_of_status:
  "snd (loop (iteration_of v w f g) k n) =
     (if list_all (completes v w f g) [k..<k + n] then Ret () else Blocked)"
  by (rule loop_status) (rule iteration_of_status)

lemma program_run:
  assumes "logging_ok v w" "resolve v w f = (e, Ret g)" "flag_r f"
  shows "program v w f n =
         (prelude v @ e @ fst (loop (iteration_of v w f g) 1 n),
          if list_all (completes v w f g) [1..<Suc n] then Running else Waiting)"
proof -
  obtain l where l: "loop (iteration_of v w f g) 1 n =
      (l, if list_all (completes v w f g) [1..<Suc n] then Ret () else Blocked)"
    using loop_iteration_of_status [of v w f g 1 n]
    by (cases "loop (iteration_of v w f g) 1 n") auto
  show ?thesis
  proof (cases v)
    case Concurrent
    then show ?thesis
      using assms startup_resolve [of w f] l
      by (simp add: program_def main_def seq_def iteration_of_def)
  next
    case Simple
    then show ?thesis
      using assms l
      by (simp add: program_def main_simple_def seq_def iteration_of_def prelude_def)
  qed
qed

lemma in_seq_events:
  assumes "e \<in> set (fst (seq m h))"
  shows "e \<in> set (fst m) \<or> (\<exists>x. e \<in> set (fst (h x)))"
proof (cases m)
  case (Pair a c)
  show ?thesis
  proof (cases c)
    case (Ret x)
    obtain a' c' where h: "h x = (a', c')" by (cases "h x")
    from assms Pair Ret h have "e \<in> set a \<or> e \<in> set (fst (h x))" by (auto simp: seq_def)
    with Pair show ?thesis by auto
  qed (use assms Pair in \<open>auto simp: seq_def\<close>)
qed

lemma in_loop_events: "e \<in> set (fst (loop b k n)) \<Longrightarrow> \<exists>j. e \<in> set (fst (b j))"
proof (induction n arbitrary: k)
  case 0
  then show ?case by simp
next
  case (Suc n)
  from Suc.prems have "e \<in> set (fst (seq (b k) (\<lambda>_. loop b (Suc k) n)))" by simp
  from in_seq_events [OF this] Suc.IH show ?case by blast
qed

lemma hostname_not_in_iteration:
  "Exec [''hostname'', ''-I''] \<notin> set (fst (iteration_of v w f g k))"
proof (cases v)
  case Concurrent
  then show ?thesis using Exec_iteration [of "[''hostname'', ''-I'']" w f g k]
    by (auto simp: iteration_of_def)
next
  case Simple
  then show ?thesis using Exec_iteration_simple [of "[''hostname'', ''-I'']" w f g k]
    by (auto simp: iteration_of_def)
qed

lemma hostname_not_in_getNodes:
  "Exec [''hostname'', ''-I''] \<notin> set (fst (getNodes v w t g))"
  by (auto simp: getNodes_def Let_def Fatalf_def pxctlBin_def split: option.splits sum.splits)

lemma resolve_flag_events:
  assumes "flag_ip f \<noteq> []"
  shows "Exec [''hostname'', ''-I''] \<notin> set (fst (resolve v w f))"
  using resolve_getNodes [OF locate_flag [OF assms], of v w] hostname_not_in_getNodes
  by simp

lemma program_events:
  assumes "e \<in> set (fst (program v w f n))"
  shows "e \<in> set (prelude v) \<or> e \<in> set (fst (setupLogging w)) \<or> e \<in> set (fst (resolve v w f)) \<or>
         (\<exists>g k. e \<in> set (fst (iteration_of v w f g k))) \<or> (\<exists>i q a. e = InstallService i q a)"
proof (cases v)
  case Concurrent
  obtain e1 c1 where r: "resolve Concurrent w f = (e1, c1)" by (cases "resolve Concurrent w f")
  obtain e0 c0 where s: "setupLogging w = (e0, c0)" by (cases "setupLogging w")
  show ?thesis
  proof (cases c1)
    case (Ret g)
    obtain l c2 where l: "loop (iteration w f g) 1 n = (l, c2)" by (cases "loop (iteration w f g) 1 n")
    from assms Concurrent r s Ret l show ?thesis
      using in_loop_events [of e "iteration w f g" 1 n]
      by (cases c0; cases c2)
         (auto simp: program_def main_def startup_def seq_def prelude_def iteration_of_def
           split: if_splits)
  qed (use assms Concurrent r s in \<open>cases c0; auto simp: program_def main_def startup_def seq_def prelude_def split: if_splits\<close>)+
next
  case Simple
  obtain e1 c1 where r: "resolve Simple w f = (e1, c1)" by (cases "resolve Simple w f")
  show ?thesis
  proof (cases c1)
    case (Ret g)
    obtain l c2 where l: "loop (iteration_simple w f g) 1 n = (l, c2)"
      by (cases "loop (iteration_simple w f g) 1 n")
    from assms Simple r Ret l show ?thesis
      using in_loop_events [of e "iteration_simple w f g" 1 n]
      by (cases c2)
         (auto simp: program_def main_simple_def seq_def prelude_def iteration_of_def
           split: if_splits)
  qed (use assms Simple r in \<open>auto simp: program_def main_simple_def seq_def prelude_def\<close>)+
qed

lemma no_lookup_with_flag:
  assumes "flag_ip f \<noteq> []"
  shows "Exec [''hostname'', ''-I''] \<notin> set (fst (program v w f n))"
proof
  assume "Exec [''hostname'', ''-I''] \<in> set (fst (program v w f n))"
  from program_events [OF this] show False
    using resolve_flag_events [OF assms, of v w] hostname_not_in_iteration [of v w f]
    by (auto simp: prelude_def setupLogging_def split: variant.splits option.splits)
qed

subsection \<open>Sleeping and looping\<close>

lemma not_Sleep_pingNode: "filter is_Sleep (fst (pingNode w k i iface n)) = []"
  by (simp add: pingNode_def Let_def is_Sleep_def split: option.splits sum.splits)

lemma not_Sleep_pingNode_simple: "filter is_Sleep (fst (pingNode_simple w k i iface n)) = []"
  by (simp add: pingNode_simple_def Let_def is_Sleep_def split: option.splits sum.splits)

lemma filter_concat_empty:
  "(\<And>x. x \<in> set xs \<Longrightarrow> filter P (h x) = []) \<Longrightarrow> filter P (concat (map h xs)) = []"
  by (induction xs) simp_all

lemma no_Sleep_probes:
  "filter is_Sleep (concat (map (\<lambda>p. fst (snd p)) (complete cs (probes w k iface l)))) = []"
proof (rule filter_concat_empty)
  fix p assume "p \<in> set (complete cs (probes w k iface l))"
  then have "p \<in> set (probes w k iface l)" by (simp add: set_complete)
  from probe_in_probes [OF this] show "filter is_Sleep (fst (snd p)) = []"
    using not_Sleep_pingNode by auto
qed

lemma no_Sleep_probes_simple:
  "filter is_Sleep (concat (map (\<lambda>p. fst (snd p)) (complete cs (probes_simple w k iface l)))) = []"
proof (rule filter_concat_empty)
  fix p assume "p \<in> set (complete cs (probes_simple w k iface l))"
  then have "p \<in> set (probes_simple w k iface l)" by (simp add: set_complete)
  from probe_in_probes_simple [OF this] show "filter is_Sleep (fst (snd p)) = []"
    using not_Sleep_pingNode_simple by auto
qed

text \<open>An iteration that completes sleeps once, at its end; one that does not never sleeps.\<close>

lemma Sleep_iteration_of:
  "filter is_Sleep (fst (iteration_of v w f g k)) =
     (if completes v w f g k then [Sleep (cadence f)] else [])"
proof (cases v)
  case Concurrent
  have "filter is_Sleep (fst (iteration w f g k)) =
        (if cycle_returns w (flag_interface f) g k then [Sleep (cadence f)] else [])"
    unfolding iteration_events
    by (simp add: no_Sleep_probes) (simp add: is_Sleep_def skipping_def)
  then show ?thesis using Concurrent by (simp add: iteration_of_def completes_def)
next
  case Simple
  have "filter is_Sleep (fst (iteration_simple w f g k)) = [Sleep (cadence f)]"
    unfolding iteration_simple_events
    by (simp add: no_Sleep_probes_simple) (simp add: is_Sleep_def skipping_def)
  then show ?thesis using Simple by (simp add: iteration_of_def completes_def)
qed

lemma last_iteration_of:
  "completes v w f g k \<Longrightarrow> last (fst (iteration_of v w f g k)) = Sleep (cadence f)"
proof (cases v)
  case Concurrent
  assume "completes v w f g k"
  then have "cycle_returns w (flag_interface f) g k"
    using Concurrent by (simp add: completes_def)
  then have "last (fst (iteration w f g k)) = Sleep (cadence f)"
    unfolding iteration_events by simp
  then show ?thesis using Concurrent by (simp add: iteration_of_def)
next
  case Simple
  have "last (fst (iteration_simple w f g k)) = Sleep (cadence f)"
    unfolding iteration_simple_events by simp
  then show ?thesis using Simple by (simp add: iteration_of_def)
qed

lemma loop_events:
  assumes "\<And>j. snd (b j) = (if c j then Ret () else Blocked)"
  shows "list_all c [k..<k + n] \<Longrightarrow> fst (loop b k n) = concat (map (\<lambda>j. fst (b j)) [k..<k + n])"
proof (induction n arbitrary: k)
  case 0
  then show ?case by simp
next
  case (Suc n)
  have u: "[k..<k + Suc n] = k # [Suc k..<Suc k + n]"
    by (simp add: upt_rec [of k])
  from Suc.prems have ck: "c k" and rest: "list_all c [Suc k..<Suc k + n]"
    unfolding u by simp_all
  obtain e where e: "b k = (e, Ret ())" using assms [of k] ck by (cases "b k") auto
  obtain e' c' where e': "loop b (Suc k) n = (e', c')" by (cases "loop b (Suc k) n")
  have "fst (loop b k (Suc n)) = e @ e'" by (simp add: seq_def e e')
  also have "e' = concat (map (\<lambda>j. fst (b j)) [Suc k..<Suc k + n])"
    using Suc.IH [OF rest] e' by simp
  finally show ?case unfolding u using e by simp
qed

lemma Sleeps_loop:
  assumes "list_all (completes v w f g) [k..<k + n]"
  shows "filter is_Sleep (fst (loop (iteration_of v w f g) k n)) = replicate n (Sleep (cadence f))"
proof -
  have "list_all (completes v w f g) js \<Longrightarrow>
        filter is_Sleep (concat (map (\<lambda>j. fst (iteration_of v w f g j)) js)) =
        replicate (length js) (Sleep (cadence f))" for js
    by (induction js) (simp_all add: Sleep_iteration_of)
  from this [OF assms] show ?thesis
    using loop_events [of "iteration_of v w f g" "completes v w f g" k n, OF iteration_of_status assms]
    by simp
qed

lemma filter_loop_empty:
  assumes "\<And>j. filter P (fst (b j)) = []"
  shows "filter P (fst (loop b k n)) = []"
proof -
  have "\<not> P e" if "e \<in> set (fst (loop b k n))" for e
  proof -
    from in_loop_events [OF that] obtain j where "e \<in> set (fst (b j))" by blast
    with assms [of j] show ?thesis by (auto simp: filter_empty_conv)
  qed
  then show ?thesis by (auto simp: filter_empty_conv)
qed

lemma forever_iteration_of:
  "(\<And>j. completes v w f g j) \<Longrightarrow> forever (iteration_of v w f g) k = None"
  by (rule forever_None) (simp add: iteration_of_status)

lemma slept_seconds:
  assumes "0 \<le> sint (flag_frequency f)" "sint (flag_frequency f) \<le> 9223372036"
  shows "slept_ns (cadence f) = sint (flag_frequency f) * 1000000000"
  using sint_seconds [OF assms] assms(1) by (simp add: slept_ns_def cadence_def)

text \<open>In the example no command lingers, so every cycle completes.\<close>

lemma world_ex_returns: "cycle_returns world_ex iface g k"
proof -
  have "returned p" if "p \<in> set (probes world_ex k iface (non_self_peers g))" for p
    using probe_in_probes [OF that]
    by (auto simp: returned_def pingNode_def world_ex_def Output_ctx_def)
  then show ?thesis by (simp add: cycle_returns_def list_all_iff)
qed

lemma world_ex_completes: "list_all (completes v world_ex f g) js"
  by (cases v) (simp_all add: completes_def world_ex_returns list_all_iff)

subsection \<open>The membership source after start-up\<close>

lemma resolve_ex:
  "resolve v world_ex flags_ex =
     ([Exec [''hostname'', ''-I''], Exec [''/opt/pwx/bin/pxctl'', ''status'', ''-j'']], Ret globals_ex)"
  by (simp add: resolve_def locate_def getLocalIP_def getNodes_def seq_def Output_def Fields_def
      space_len_def ascii_space_def flush_def world_ex_def flags_ex_def status_ex_def
      globals_ex_def init_globals_def pxctlBin_def)

lemma probes_later: "probes (w\<lparr>pxctl_cmd := later\<rparr>) = probes w"
  by (intro ext) (simp add: probes_def pingNode_def)

lemma probes_simple_later: "probes_simple (w\<lparr>pxctl_cmd := later\<rparr>) = probes_simple w"
  by (intro ext) (simp add: probes_simple_def pingNode_simple_def)

lemma sweep_cycle_later: "sweep_cycle (w\<lparr>pxctl_cmd := later\<rparr>) = sweep_cycle w"
  by (intro ext) (simp add: sweep_cycle_def probes_later)

lemma iteration_of_later: "iteration_of v (w\<lparr>pxctl_cmd := later\<rparr>) = iteration_of v w"
proof (cases v)
  case Concurrent
  have "iteration (w\<lparr>pxctl_cmd := later\<rparr>) = iteration w"
    by (intro ext) (simp add: iteration_def sweep_cycle_later probes_later split: option.splits)
  then show ?thesis using Concurrent by (simp add: iteration_of_def)
next
  case Simple
  have "iteration_simple (w\<lparr>pxctl_cmd := later\<rparr>) = iteration_simple w"
    by (intro ext) (simp add: iteration_simple_def probes_simple_later)
  then show ?thesis using Simple by (simp add: iteration_of_def)
qed

lemma getNodes_later:
  "later 0 = pxctl_cmd w 0 \<Longrightarrow> getNodes v (w\<lparr>pxctl_cmd := later\<rparr>) 0 = getNodes v w 0"
  by (intro ext) (simp add: getNodes_def Let_def split: option.splits sum.splits)

lemma locate_later: "locate v (w\<lparr>pxctl_cmd := later\<rparr>) = locate v w"
  by (intro ext) (simp add: locate_def getLocalIP_def)

lemma resolve_later:
  "later 0 = pxctl_cmd w 0 \<Longrightarrow> resolve v (w\<lparr>pxctl_cmd := later\<rparr>) f = resolve v w f"
  by (simp add: resolve_def locate_later getNodes_later cong: if_cong)

lemma setupLogging_later: "setupLogging (w\<lparr>pxctl_cmd := later\<rparr>) = setupLogging w"
  by (simp add: setupLogging_def split: option.splits)

lemma startup_later:
  "later 0 = pxctl_cmd w 0 \<Longrightarrow> startup (w\<lparr>pxctl_cmd := later\<rparr>) f = startup w f"
  by (simp add: startup_def setupLogging_later resolve_later cong: if_cong)

lemma program_later:
  assumes "later 0 = pxctl_cmd w 0"
  shows "program v (w\<lparr>pxctl_cmd := later\<rparr>) f n = program v w f n"
proof (cases v)
  case Concurrent
  have "iteration (w\<lparr>pxctl_cmd := later\<rparr>) = iteration w"
    using iteration_of_later [where v = Concurrent and w = w and later = later]
    by (simp add: iteration_of_def)
  then show ?thesis
    using Concurrent assms
    by (simp add: program_def main_def startup_later cong: if_cong)
next
  case Simple
  have "iteration_simple (w\<lparr>pxctl_cmd := later\<rparr>) = iteration_simple w"
    using iteration_of_later [where v = Simple and w = w and later = later]
    by (simp add: iteration_of_def)
  then show ?thesis
    using Simple assms
    by (simp add: program_def main_simple_def resolve_later cong: if_cong)
qed

lemma resolve_Ret_nodes:
  assumes "resolve v w f = (e, Ret g)"
  shows "\<exists>out st. pxctl_cmd w 0 = Finished out \<and> unmarshal w out = Inr st \<and>
                  nodes g = Some (map DataIp (Nodes (cluster st)))"
proof -
  obtain e1 c1 where l: "locate v w f = (e1, c1)" by (cases "locate v w f")
  show ?thesis
  proof (cases c1)
    case (Ret g0)
    from resolve_getNodes [OF l [unfolded Ret]] assms
    have "snd (getNodes v w 0 g0) = Ret g" by simp
    then show ?thesis
      by (auto simp: getNodes_def Let_def Output_def
          split: cmd_result.splits sum.splits)
  qed (use assms l in \<open>auto simp: resolve_def seq_def\<close>)
qed

lemma fetch_report_pingNode: "filter fetch_failure_report (fst (pingNode w k i iface n)) = []"
  by (simp add: pingNode_def Let_def fetch_failure_report_def verb_def
      split: option.splits sum.splits)

lemma fetch_report_pingNode_simple:
  "filter fetch_failure_report (fst (pingNode_simple w k i iface n)) = []"
  by (simp add: pingNode_simple_def Let_def fetch_failure_report_def verb_def
      split: option.splits sum.splits)

lemma no_fetch_report_iteration_of:
  "filter fetch_failure_report (fst (iteration_of v w f g k)) = []"
proof (cases v)
  case Concurrent
  have "filter fetch_failure_report (concat (map (\<lambda>p. fst (snd p))
          (complete cs (probes w k iface l)))) = []" for cs iface l
  proof (rule filter_concat_empty)
    fix p assume "p \<in> set (complete cs (probes w k iface l))"
    then have "p \<in> set (probes w k iface l)" by (simp add: set_complete)
    from probe_in_probes [OF this] show "filter fetch_failure_report (fst (snd p)) = []"
      using fetch_report_pingNode by auto
  qed
  then have "filter fetch_failure_report (fst (iteration w f g k)) = []"
    unfolding iteration_events
    by simp (simp add: fetch_failure_report_def skipping_def)
  then show ?thesis using Concurrent by (simp add: iteration_of_def)
next
  case Simple
  have "filter fetch_failure_report (concat (map (\<lambda>p. fst (snd p))
          (complete cs (probes_simple w k iface l)))) = []" for cs iface l
  proof (rule filter_concat_empty)
    fix p assume "p \<in> set (complete cs (probes_simple w k iface l))"
    then have "p \<in> set (probes_simple w k iface l)" by (simp add: set_complete)
    from probe_in_probes_simple [OF this] show "filter fetch_failure_report (fst (snd p)) = []"
      using fetch_report_pingNode_simple by auto
  qed
  then have "filter fetch_failure_report (fst (iteration_simple w f g k)) = []"
    unfolding iteration_simple_events
    by simp (simp add: fetch_failure_report_def skipping_def)
  then show ?thesis using Simple by (simp add: iteration_of_def)
qed

lemma no_fetch_report_loop:
  "filter fetch_failure_report (fst (loop (iteration_of v w f g) k n)) = []"
  by (rule filter_loop_empty) (rule no_fetch_report_iteration_of)

lemma no_pxctl_iteration_of:
  "Exec [pxctlBin, ''status'', ''-j''] \<notin> set (fst (iteration_of v w f g k))"
proof (cases v)
  case Concurrent
  then show ?thesis using Exec_iteration [of "[pxctlBin, ''status'', ''-j'']" w f g k]
    by (auto simp: iteration_of_def)
next
  case Simple
  then show ?thesis using Exec_iteration_simple [of "[pxctlBin, ''status'', ''-j'']" w f g k]
    by (auto simp: iteration_of_def)
qed

lemma no_pxctl_loop:
  "Exec [pxctlBin, ''status'', ''-j''] \<notin> set (fst (loop (iteration_of v w f g) k n))"
  using in_loop_events [of "Exec [pxctlBin, ''status'', ''-j'']" "iteration_of v w f g" k n]
    no_pxctl_iteration_of [of v w f g]
  by blast

subsection \<open>The report of a cycle\<close>

lemma failure_report_pingNode: "filter failure_report (fst (pingNode w k i iface n)) = []"
  by (simp add: pingNode_def Let_def failure_report_def verb_def split: option.splits sum.splits)

lemma no_failure_report_probes:
  "filter failure_report (concat (map (\<lambda>p. fst (snd p)) (complete cs (probes w k iface l)))) = []"
proof (rule filter_concat_empty)
  fix p assume "p \<in> set (complete cs (probes w k iface l))"
  then have "p \<in> set (probes w k iface l)" by (simp add: set_complete)
  from probe_in_probes [OF this] show "filter failure_report (fst (snd p)) = []"
    using failure_report_pingNode by auto
qed

lemma report_split:
  "\<exists>xs ys. fst (iteration w f g k) = xs @ ys \<and> filter failure_report xs = [] \<and>
           filter is_info ys = []"
proof -
  let ?arr = "complete (schedule w k) (probes w k (flag_interface f) (non_self_peers g))"
  let ?xs = "Timer cycleDeadline #
     replicate (count_list (node_list g) (localIP g)) (skipping Concurrent) @
     concat (map (\<lambda>p. fst (snd p)) ?arr) @ map (Log InfoLevel) (successes (sent ?arr))"
  let ?ys = "if cycle_returns w (flag_interface f) g k
      then map (\<lambda>err. Log ErrorLevel (''Ping failed: '' @ err)) (failures (sent ?arr)) @
           [Sleep (cadence f)]
      else []"
  have 1: "fst (iteration w f g k) = ?xs @ ?ys"
    unfolding iteration_events by simp
  have 2: "filter failure_report ?xs = []"
    by (simp add: no_failure_report_probes) (simp add: failure_report_def skipping_def)
  have 3: "filter is_info ?ys = []"
    by (simp add: is_info_def)
  from 1 2 3 show ?thesis by blast
qed

lemma loop_Suc_events:
  assumes "\<And>j. snd (b j) = (if c j then Ret () else Blocked)"
  shows "fst (loop b k (Suc n)) = fst (b k) @ (if c k then fst (loop b (Suc k) n) else [])"
proof -
  obtain e where e: "b k = (e, if c k then Ret () else Blocked)"
    using assms [of k] by (cases "b k") auto
  obtain e' c' where e': "loop b (Suc k) n = (e', c')" by (cases "loop b (Suc k) n")
  show ?thesis by (simp add: seq_def e e')
qed

subsection \<open>What a probe can come to\<close>

lemma pingNode_never_fatal:
  "snd (pingNode w k i iface n) \<noteq> Exit c \<and> snd (pingNode w k i iface n) \<noteq> Panic"
  by (simp add: pingNode_def Let_def split: option.splits sum.splits)

lemma pingNode_simple_never_fatal:
  "snd (pingNode_simple w k i iface n) \<noteq> Exit c \<and> snd (pingNode_simple w k i iface n) \<noteq> Panic"
  by (simp add: pingNode_simple_def Let_def split: option.splits sum.splits)

lemma value_collected:
  assumes "j < length l" "snd (pingNode w k j iface (l ! j)) = Ret r"
  shows "r \<in> set (sent (complete cs (probes w k iface l)))"
proof -
  have "probes w k iface l ! j \<in> set (probes w k iface l)"
    using assms(1) by (simp add: length_probes)
  then have "(l ! j, pingNode w k j iface (l ! j)) \<in> set (complete cs (probes w k iface l))"
    using nth_probes [OF assms(1), of w k iface] by (simp add: set_complete)
  from in_sent [OF this] assms(2) show ?thesis by simp
qed

subsection \<open>The example runs\<close>

lemma peers_ex: "non_self_peers globals_ex = [''10.0.0.1'', ''10.0.0.3'']"
  by (simp add: non_self_peers_def globals_ex_def node_list_def)

lemma probes_ex:
  "probes world_ex k ''eth0'' [''10.0.0.1'', ''10.0.0.3''] =
     [(''10.0.0.1'', [Exec [''bash'', ''-c'', ''ping -I eth0 -c 1 -W 5 10.0.0.1'']],
       Ret (Inr ''1 received'')),
      (''10.0.0.3'', [Exec [''bash'', ''-c'', ''ping -I eth0 -c 1 -W 5 10.0.0.3''],
         Log ErrorLevel ''Ping failed on node 10.0.0.3: signal: killed''],
       Ret (Inl ''signal: killed''))]"
  by (simp add: probes_def enumerate_eq_zip upt_rec pingNode_def pingCmd_eq world_ex_def
      Output_ctx_def killed_def verb_def)

lemma probes_stuck:
  "probes world_stuck k ''eth0'' [''10.0.0.1'', ''10.0.0.3''] =
     [(''10.0.0.1'', [Exec [''bash'', ''-c'', ''ping -I eth0 -c 1 -W 5 10.0.0.1'']],
       Ret (Inr ''1 received'')),
      (''10.0.0.3'', [Exec [''bash'', ''-c'', ''ping -I eth0 -c 1 -W 5 10.0.0.3'']], Blocked)]"
  by (simp add: probes_def enumerate_eq_zip upt_rec pingNode_def pingCmd_eq world_stuck_def
      Output_ctx_def)

lemma probes_default:
  "probes world_ex k [] [''10.0.0.1'', ''10.0.0.3''] =
     [(''10.0.0.1'', [Exec [''bash'', ''-c'', ''ping -I  -c 1 -W 5 10.0.0.1'']],
       Ret (Inr ''1 received'')),
      (''10.0.0.3'', [Exec [''bash'', ''-c'', ''ping -I  -c 1 -W 5 10.0.0.3''],
         Log ErrorLevel ''Ping failed on node 10.0.0.3: signal: killed''],
       Ret (Inl ''signal: killed''))]"
  by (simp add: probes_def enumerate_eq_zip upt_rec pingNode_def pingCmd_eq world_ex_def
      Output_ctx_def killed_def verb_def)

lemma count_ex: "count_list (node_list globals_ex) (localIP globals_ex) = Suc 0"
  by (simp add: globals_ex_def node_list_def)

lemma iteration_ex:
  "iteration world_ex flags_ex globals_ex k =
     ([Timer 300000000000,
       Log InfoLevel ''skipping local node'',
       Exec [''bash'', ''-c'', ''ping -I eth0 -c 1 -W 5 10.0.0.3''],
       Log ErrorLevel ''Ping failed on node 10.0.0.3: signal: killed'',
       Exec [''bash'', ''-c'', ''ping -I eth0 -c 1 -W 5 10.0.0.1''],
       Log InfoLevel ''1 received'',
       Log ErrorLevel ''Ping failed: signal: killed'',
       Sleep 3000000000], Ret ())"
proof -
  have f: "flag_interface flags_ex = ''eth0''" by (simp add: flags_ex_def)
  have s: "schedule world_ex k = [Suc 0]" by (simp add: world_ex_def)
  have 1: "fst (iteration world_ex flags_ex globals_ex k) =
      [Timer 300000000000,
       Log InfoLevel ''skipping local node'',
       Exec [''bash'', ''-c'', ''ping -I eth0 -c 1 -W 5 10.0.0.3''],
       Log ErrorLevel ''Ping failed on node 10.0.0.3: signal: killed'',
       Exec [''bash'', ''-c'', ''ping -I eth0 -c 1 -W 5 10.0.0.1''],
       Log InfoLevel ''1 received'',
       Log ErrorLevel ''Ping failed: signal: killed'',
       Sleep 3000000000]"
    unfolding iteration_events f peers_ex probes_ex s count_ex
    by (simp add: cycle_returns_def peers_ex probes_ex sent_def successes_def failures_def
        skipping_def cycleDeadline_def Minute_def Second_def cadence_def flags_ex_def
        returned_def)
  have 2: "snd (iteration world_ex flags_ex globals_ex k) = Ret ()"
    by (simp add: iteration_status world_ex_returns)
  show ?thesis using 1 2 by (simp add: prod_eq_iff)
qed

lemma iteration_stuck:
  "iteration world_stuck flags_ex globals_ex k =
     ([Timer 300000000000,
       Log InfoLevel ''skipping local node'',
       Exec [''bash'', ''-c'', ''ping -I eth0 -c 1 -W 5 10.0.0.3''],
       Exec [''bash'', ''-c'', ''ping -I eth0 -c 1 -W 5 10.0.0.1''],
       Log InfoLevel ''1 received''], Blocked)"
proof -
  have f: "flag_interface flags_ex = ''eth0''" by (simp add: flags_ex_def)
  have s: "schedule world_stuck k = [Suc 0]" by (simp add: world_stuck_def world_ex_def)
  have r: "\<not> cycle_returns world_stuck ''eth0'' globals_ex k"
    by (simp add: cycle_returns_def peers_ex probes_stuck returned_def)
  have 1: "fst (iteration world_stuck flags_ex globals_ex k) =
      [Timer 300000000000,
       Log InfoLevel ''skipping local node'',
       Exec [''bash'', ''-c'', ''ping -I eth0 -c 1 -W 5 10.0.0.3''],
       Exec [''bash'', ''-c'', ''ping -I eth0 -c 1 -W 5 10.0.0.1''],
       Log InfoLevel ''1 received'']"
    unfolding iteration_events f peers_ex probes_stuck s count_ex
    by (simp add: r [unfolded peers_ex] cycle_returns_def peers_ex probes_stuck sent_def
        successes_def skipping_def cycleDeadline_def Minute_def Second_def returned_def)
  have 2: "snd (iteration world_stuck flags_ex globals_ex k) = Blocked"
    using r by (simp add: iteration_status f)
  show ?thesis using 1 2 by (simp add: prod_eq_iff)
qed

lemma resolve_long:
  "resolve v world_ex flags_long =
     ([Exec [''hostname'', ''-I''], Exec [''/opt/pwx/bin/pxctl'', ''status'', ''-j'']], Ret globals_ex)"
  by (simp add: resolve_def locate_def getLocalIP_def getNodes_def seq_def Output_def Fields_def
      space_len_def ascii_space_def flush_def world_ex_def flags_long_def flags_ex_def
      status_ex_def globals_ex_def init_globals_def pxctlBin_def)

lemma logging_ex: "logging_ok v world_ex"
  by (cases v) (simp_all add: logging_ok_def world_ex_def)

section \<open>The claims\<close>


text \<open>
  C8. With the command line \<open>-r\<close> alone the interface name is the default of
  \<open>-interface\<close>, the empty string. The command line of a probe is then
  \<open>ping -I  -c 1 -W 5 node\<close>: its words are \<open>ping\<close>, \<open>-I\<close>, \<open>-c\<close>, \<open>1\<close>, \<open>-W\<close>,
  \<open>5\<close> and the node, so \<open>-I\<close> takes \<open>-c\<close> as the name of the interface, \<open>1\<close> is left
  over as a destination and no count is given, in both variants; every probe of a cycle
  is run with such a line. With the interface name \<open>eth0\<close> ping is asked for one
  packet on \<open>eth0\<close>.
\<close>

theorem empty_interface_probe:
  "flag_interface flags_default = [] \<and>
   pingCmd (flag_interface flags_default) ''10.0.0.1'' = ''ping -I  -c 1 -W 5 10.0.0.1'' \<and>
   bash_words (pingCmd (flag_interface flags_default) ''10.0.0.1'') =
     Some [''ping'', ''-I'', ''-c'', ''1'', ''-W'', ''5'', ''10.0.0.1''] \<and>
   ping_request (pingCmd (flag_interface flags_default) ''10.0.0.1'') =
     Some \<lparr>opt_I = Some ''-c'', opt_c = None, opt_W = Some ''5'',
           destinations = [''1'', ''10.0.0.1'']\<rparr> \<and>
   pingCmd_simple (flag_interface flags_default) ''10.0.0.1'' = ''ping -I  -c 1 10.0.0.1'' \<and>
   ping_request (pingCmd_simple (flag_interface flags_default) ''10.0.0.1'') =
     Some \<lparr>opt_I = Some ''-c'', opt_c = None, opt_W = None,
           destinations = [''1'', ''10.0.0.1'']\<rparr> \<and>
   filter is_Exec (fst (iteration world_ex flags_default globals_ex 1)) =
     [Exec [''bash'', ''-c'', ''ping -I  -c 1 -W 5 10.0.0.3''],
      Exec [''bash'', ''-c'', ''ping -I  -c 1 -W 5 10.0.0.1'']] \<and>
   ping_request (pingCmd ''eth0'' ''10.0.0.1'') =
     Some \<lparr>opt_I = Some ''eth0'', opt_c = Some ''1'', opt_W = Some ''5'',
           destinations = [''10.0.0.1'']\<rparr>"
proof -
  have f: "flag_interface flags_default = []"
    by (simp add: flags_default_def)
  have 1: "pingCmd [] ''10.0.0.1'' = ''ping -I  -c 1 -W 5 10.0.0.1''"
    "pingCmd_simple [] ''10.0.0.1'' = ''ping -I  -c 1 10.0.0.1''"
    by (simp_all add: pingCmd_eq pingCmd_simple_eq)
  have 2: "bash_words ''ping -I  -c 1 -W 5 10.0.0.1'' =
     Some [''ping'', ''-I'', ''-c'', ''1'', ''-W'', ''5'', ''10.0.0.1'']"
    "bash_words ''ping -I  -c 1 10.0.0.1'' = Some [''ping'', ''-I'', ''-c'', ''1'', ''10.0.0.1'']"
    by (simp_all add: bash_words_def shell_blank_def shell_literal_def flush_def)
  have 3: "ping_request ''ping -I  -c 1 -W 5 10.0.0.1'' =
     Some \<lparr>opt_I = Some ''-c'', opt_c = None, opt_W = Some ''5'',
           destinations = [''1'', ''10.0.0.1'']\<rparr>"
    "ping_request ''ping -I  -c 1 10.0.0.1'' =
     Some \<lparr>opt_I = Some ''-c'', opt_c = None, opt_W = None,
           destinations = [''1'', ''10.0.0.1'']\<rparr>"
    unfolding ping_request_def 2 by (simp_all add: set_opt_def no_args_def)
  have s: "schedule world_ex 1 = [Suc 0]" by (simp add: world_ex_def)
  have 4: "filter is_Exec (fst (iteration world_ex flags_default globals_ex 1)) =
     [Exec [''bash'', ''-c'', ''ping -I  -c 1 -W 5 10.0.0.3''],
      Exec [''bash'', ''-c'', ''ping -I  -c 1 -W 5 10.0.0.1'']]"
    unfolding iteration_events f peers_ex probes_default s count_ex
    by (simp add: is_Exec_def skipping_def)
  have 5: "ping_request (pingCmd ''eth0'' ''10.0.0.1'') =
     Some \<lparr>opt_I = Some ''eth0'', opt_c = Some ''1'', opt_W = Some ''5'',
           destinations = [''10.0.0.1'']\<rparr>"
    by (rule ping_request_pingCmd) (simp_all add: shell_literal_def)
  show ?thesis
    unfolding f 1 by (intro conjI refl 2 3 4 5)
qed

text \<open>
  C9. In the concurrent variant every iteration of the loop logs the output of every
  probe that succeeded before it logs any failure, whatever the order in which the
  goroutines acted. The events of an iteration are the timer, the notes of the launching
  loop, the events of the goroutines, the outputs sent on \<open>results\<close> in the order they
  were sent and then, once the channels are closed, the errors sent on \<open>errs\<close> in the
  order they were sent and the sleep; when a goroutine never returns the channels are
  never closed and no error of \<open>errs\<close> is logged at all. So the events split into a
  part without a failure line of the report and a part without a line at
  \<open>InfoLevel\<close>. Every order of the goroutines is the order of some schedule, and a run
  of \<open>main\<close> in direct mode is its start-up followed by these iterations, one after the
  other as long as they complete.
\<close>

theorem report_successes_first:
  "fst (iteration w f g k) =
     Timer cycleDeadline #
     replicate (count_list (node_list g) (localIP g)) (skipping Concurrent) @
     concat (map (\<lambda>p. fst (snd p))
       (complete (schedule w k) (probes w k (flag_interface f) (non_self_peers g)))) @
     map (Log InfoLevel)
       (successes (sent (complete (schedule w k) (probes w k (flag_interface f) (non_self_peers g))))) @
     (if cycle_returns w (flag_interface f) g k
      then map (\<lambda>err. Log ErrorLevel (''Ping failed: '' @ err))
             (failures (sent (complete (schedule w k)
                (probes w k (flag_interface f) (non_self_peers g))))) @
           [Sleep (cadence f)]
      else []) \<and>
   (\<exists>xs ys. fst (iteration w f g k) = xs @ ys \<and> filter failure_report xs = [] \<and>
            filter is_info ys = []) \<and>
   (mset order = mset (probes w k (flag_interface f) (non_self_peers g)) \<longrightarrow>
      (\<exists>cs. complete cs (probes w k (flag_interface f) (non_self_peers g)) = order)) \<and>
   (logging_ok Concurrent w \<and> resolve Concurrent w f = (e, Ret g) \<and> flag_r f \<longrightarrow>
      fst (main w f n) = prelude Concurrent @ e @ fst (loop (iteration w f g) 1 n)) \<and>
   fst (loop (iteration w f g) k (Suc n)) =
     fst (iteration w f g k) @
     (if cycle_returns w (flag_interface f) g k then fst (loop (iteration w f g) (Suc k) n) else [])"
proof -
  have 3: "mset order = mset (probes w k (flag_interface f) (non_self_peers g)) \<longrightarrow>
      (\<exists>cs. complete cs (probes w k (flag_interface f) (non_self_peers g)) = order)"
    using complete_any_order [of order] by blast
  have 4: "logging_ok Concurrent w \<and> resolve Concurrent w f = (e, Ret g) \<and> flag_r f \<longrightarrow>
      fst (main w f n) = prelude Concurrent @ e @ fst (loop (iteration w f g) 1 n)"
    using program_run [of Concurrent w f e g n] by (simp add: program_def iteration_of_def)
  have 5: "fst (loop (iteration w f g) k (Suc n)) =
     fst (iteration w f g k) @
     (if cycle_returns w (flag_interface f) g k then fst (loop (iteration w f g) (Suc k) n) else [])"
    by (rule loop_Suc_events) (rule iteration_status)
  show ?thesis
    by (intro conjI iteration_events report_split 3 4 5)
qed

theorem report_successes_first_witness:
  "fst (iteration world_ex flags_ex globals_ex 2) =
     [Timer 300000000000,
      Log InfoLevel ''skipping local node'',
      Exec [''bash'', ''-c'', ''ping -I eth0 -c 1 -W 5 10.0.0.3''],
      Log ErrorLevel ''Ping failed on node 10.0.0.3: signal: killed'',
      Exec [''bash'', ''-c'', ''ping -I eth0 -c 1 -W 5 10.0.0.1''],
      Log InfoLevel ''1 received'',
      Log ErrorLevel ''Ping failed: signal: killed'',
      Sleep 3000000000] \<and>
   fst (iteration world_stuck flags_ex globals_ex 2) =
     [Timer 300000000000,
      Log InfoLevel ''skipping local node'',
      Exec [''bash'', ''-c'', ''ping -I eth0 -c 1 -W 5 10.0.0.3''],
      Exec [''bash'', ''-c'', ''ping -I eth0 -c 1 -W 5 10.0.0.1''],
      Log InfoLevel ''1 received''] \<and>
   mset [probes world_ex 2 ''eth0'' [''10.0.0.1'', ''10.0.0.3''] ! Suc 0,
         probes world_ex 2 ''eth0'' [''10.0.0.1'', ''10.0.0.3''] ! 0] =
     mset (probes world_ex 2 (flag_interface flags_ex) (non_self_peers globals_ex)) \<and>
   (\<exists>cs. complete cs (probes world_ex 2 (flag_interface flags_ex) (non_self_peers globals_ex)) =
      [probes world_ex 2 ''eth0'' [''10.0.0.1'', ''10.0.0.3''] ! Suc 0,
       probes world_ex 2 ''eth0'' [''10.0.0.1'', ''10.0.0.3''] ! 0]) \<and>
   logging_ok Concurrent world_ex \<and> flag_r flags_ex \<and>
   resolve Concurrent world_ex flags_ex =
     ([Exec [''hostname'', ''-I''], Exec [''/opt/pwx/bin/pxctl'', ''status'', ''-j'']], Ret globals_ex) \<and>
   fst (main world_ex flags_ex (Suc 0)) =
     [Log InfoLevel ''Set up logging for NW Monitor'',
      Exec [''hostname'', ''-I''], Exec [''/opt/pwx/bin/pxctl'', ''status'', ''-j''],
      Timer 300000000000,
      Log InfoLevel ''skipping local node'',
      Exec [''bash'', ''-c'', ''ping -I eth0 -c 1 -W 5 10.0.0.3''],
      Log ErrorLevel ''Ping failed on node 10.0.0.3: signal: killed'',
      Exec [''bash'', ''-c'', ''ping -I eth0 -c 1 -W 5 10.0.0.1''],
      Log InfoLevel ''1 received'',
      Log ErrorLevel ''Ping failed: signal: killed'',
      Sleep 3000000000]"
proof -
  let ?o = "[probes world_ex 2 ''eth0'' [''10.0.0.1'', ''10.0.0.3''] ! Suc 0,
             probes world_ex 2 ''eth0'' [''10.0.0.1'', ''10.0.0.3''] ! 0]"
  have f: "flag_interface flags_ex = ''eth0''" "flag_r flags_ex"
    by (simp_all add: flags_ex_def)
  have s: "schedule world_ex 2 = [Suc 0]" "schedule world_stuck 2 = [Suc 0]"
    by (simp_all add: world_ex_def world_stuck_def)
  have r: "cycle_returns world_ex ''eth0'' globals_ex 2"
    "\<not> cycle_returns world_stuck ''eth0'' globals_ex 2"
    by (simp_all add: cycle_returns_def peers_ex probes_ex probes_stuck returned_def)
  note A = report_successes_first
    [where w = world_ex and f = flags_ex and g = globals_ex and k = 2 and order = ?o and n = 0
       and e = "[Exec [''hostname'', ''-I''], Exec [''/opt/pwx/bin/pxctl'', ''status'', ''-j'']]"]
  note B = report_successes_first
    [where w = world_stuck and f = flags_ex and g = globals_ex and k = 2 and order = ?o and n = 0
       and e = "[]"]
  note C = report_successes_first
    [where w = world_ex and f = flags_ex and g = globals_ex and k = "Suc 0" and order = ?o and n = 0
       and e = "[Exec [''hostname'', ''-I''], Exec [''/opt/pwx/bin/pxctl'', ''status'', ''-j'']]"]
  note D = report_successes_first
    [where w = world_ex and f = flags_ex and g = globals_ex and k = "Suc 0" and order = ?o
       and n = "Suc 0"
       and e = "[Exec [''hostname'', ''-I''], Exec [''/opt/pwx/bin/pxctl'', ''status'', ''-j'']]"]
  have a: "fst (iteration world_ex flags_ex globals_ex 2) =
     [Timer 300000000000,
      Log InfoLevel ''skipping local node'',
      Exec [''bash'', ''-c'', ''ping -I eth0 -c 1 -W 5 10.0.0.3''],
      Log ErrorLevel ''Ping failed on node 10.0.0.3: signal: killed'',
      Exec [''bash'', ''-c'', ''ping -I eth0 -c 1 -W 5 10.0.0.1''],
      Log InfoLevel ''1 received'',
      Log ErrorLevel ''Ping failed: signal: killed'',
      Sleep 3000000000]"
    using A [THEN conjunct1] unfolding f peers_ex probes_ex s count_ex
    by (simp add: r [unfolded peers_ex] sent_def successes_def failures_def skipping_def
        cycleDeadline_def Minute_def Second_def cadence_def flags_ex_def)
  have b: "fst (iteration world_stuck flags_ex globals_ex 2) =
     [Timer 300000000000,
      Log InfoLevel ''skipping local node'',
      Exec [''bash'', ''-c'', ''ping -I eth0 -c 1 -W 5 10.0.0.3''],
      Exec [''bash'', ''-c'', ''ping -I eth0 -c 1 -W 5 10.0.0.1''],
      Log InfoLevel ''1 received'']"
    using B [THEN conjunct1] unfolding f peers_ex probes_stuck s count_ex
    by (simp add: r [unfolded peers_ex] sent_def successes_def skipping_def
        cycleDeadline_def Minute_def Second_def)
  have m: "mset ?o = mset (probes world_ex 2 (flag_interface flags_ex) (non_self_peers globals_ex))"
    unfolding f peers_ex probes_ex by simp
  have c: "\<exists>cs. complete cs (probes world_ex 2 (flag_interface flags_ex) (non_self_peers globals_ex)) = ?o"
    using A m by blast
  have d: "fst (main world_ex flags_ex (Suc 0)) =
     prelude Concurrent @ [Exec [''hostname'', ''-I''], Exec [''/opt/pwx/bin/pxctl'', ''status'', ''-j'']] @
     fst (loop (iteration world_ex flags_ex globals_ex) (Suc 0) (Suc 0))"
    using D logging_ex [of Concurrent] resolve_ex [of Concurrent] f(2) by simp
  have e: "fst (loop (iteration world_ex flags_ex globals_ex) (Suc 0) (Suc 0)) =
     fst (iteration world_ex flags_ex globals_ex (Suc 0))"
    using C by (simp add: world_ex_returns)
  have g: "fst (main world_ex flags_ex (Suc 0)) =
     [Log InfoLevel ''Set up logging for NW Monitor'',
      Exec [''hostname'', ''-I''], Exec [''/opt/pwx/bin/pxctl'', ''status'', ''-j''],
      Timer 300000000000,
      Log InfoLevel ''skipping local node'',
      Exec [''bash'', ''-c'', ''ping -I eth0 -c 1 -W 5 10.0.0.3''],
      Log ErrorLevel ''Ping failed on node 10.0.0.3: signal: killed'',
      Exec [''bash'', ''-c'', ''ping -I eth0 -c 1 -W 5 10.0.0.1''],
      Log InfoLevel ''1 received'',
      Log ErrorLevel ''Ping failed: signal: killed'',
      Sleep 3000000000]"
    unfolding d e iteration_ex by (simp add: prelude_def)
  show ?thesis
    by (intro conjI a b m c logging_ex f(2) resolve_ex g)
qed

text \<open>
  C1, as stated, fails in the simple variant: a probe whose command never exits prints
  nothing and logs nothing, and no deadline ends it. In the example cycle two peers
  other than the local address are probed and one outcome is seen.
\<close>

theorem outcomes_simple_counterexample:
  "non_self_peers globals_ex = [''10.0.0.1'', ''10.0.0.3''] \<and>
   outcomes_simple world_ex ''eth0'' globals_ex 1 = [Stdout ''1 received''] \<and>
   length (outcomes_simple world_ex ''eth0'' globals_ex 1) \<noteq> length (non_self_peers globals_ex)"
  by (simp add: outcomes_simple_def non_self_peers_def globals_ex_def node_list_def world_ex_def
      probes_simple_def pingNode_simple_def Output_def is_Exec_def enumerate_eq_zip upt_rec)

text \<open>
  C1, amended. In the concurrent variant a cycle has one goroutine for every entry of
  the peer list other than the local address, and every goroutine whose call of
  \<open>pingNode\<close> returns sends exactly one value, on \<open>results\<close> or on \<open>errs\<close>; a command
  that hangs until it is killed at cancellation makes \<open>pingNode\<close> return the error of
  the kill. The values collected are as many as the goroutines whose \<open>pingNode\<close>
  returned, and in a cycle in which all of them returned the channels are closed and the
  values are as many as those entries. In the simple variant one probe is started for
  every such entry, nothing is collected, and the outcomes to be seen are those of the
  probes whose command exits.
\<close>

theorem every_peer_one_outcome:
  "(\<exists>s. sweep_cycle w interfaceName g k = Some s \<and>
        mset (map fst (arrivals s)) = mset (non_self_peers g) \<and>
        results (collected s) = successes (sent (arrivals s)) \<and>
        errs (collected s) = failures (sent (arrivals s)) \<and>
        length (results (collected s)) + length (errs (collected s)) =
          length (filter returned (probes w k interfaceName (non_self_peers g))) \<and>
        closed s = cycle_returns w interfaceName g k \<and>
        (cycle_returns w interfaceName g k \<longrightarrow>
           length (results (collected s)) + length (errs (collected s)) =
             length (non_self_peers g))) \<and>
   (ping_cmd w k i [''bash'', ''-c'', pingCmd interfaceName node] = Hangs \<longrightarrow>
      snd (pingNode w k i interfaceName node) = Ret (Inl killed)) \<and>
   map fst (probes_simple w k interfaceName (snd (fan_out Simple (localIP g) (node_list g)))) =
     non_self_peers g \<and>
   length (outcomes_simple w interfaceName g k) =
     length (filter (\<lambda>p. snd (snd p) = Ret ())
       (probes_simple w k interfaceName (non_self_peers g))) \<and>
   length (outcomes_simple w interfaceName g k) \<le> length (non_self_peers g)"
proof -
  obtain s where s: "sweep_cycle w interfaceName g k = Some s"
    "arrivals s = complete (schedule w k) (probes w k interfaceName (non_self_peers g))"
    "results (collected s) = successes (sent (arrivals s))"
    "errs (collected s) = failures (sent (arrivals s))"
    "closed s = cycle_returns w interfaceName g k"
    using sweep_cycle_Some [of w interfaceName g k] by blast
  have 1: "mset (map fst (arrivals s)) = mset (non_self_peers g)"
    by (simp only: s(2) arrivals_peers)
  have 2: "length (results (collected s)) + length (errs (collected s)) =
           length (filter returned (probes w k interfaceName (non_self_peers g)))"
    using length_successes_failures [of "sent (arrivals s)"] s(3,4)
    by (simp add: length_sent s(2) filter_returned_complete)
  have 6: "cycle_returns w interfaceName g k \<longrightarrow>
           length (results (collected s)) + length (errs (collected s)) = length (non_self_peers g)"
    unfolding 2 by (simp add: cycle_returns_def list_all_iff length_probes)
  have k: "ping_cmd w k i [''bash'', ''-c'', pingCmd interfaceName node] = Hangs \<longrightarrow>
      snd (pingNode w k i interfaceName node) = Ret (Inl killed)"
    by (simp add: pingNode_def Let_def Output_ctx_def)
  have 3: "map fst (probes_simple w k interfaceName (snd (fan_out Simple (localIP g) (node_list g)))) =
     non_self_peers g"
    by (simp add: map_fst_probes_simple launched_eq)
  have one: "length (filter (\<lambda>e. \<not> is_Exec e) (fst (pingNode_simple w k j interfaceName n))) =
             (if snd (pingNode_simple w k j interfaceName n) = Ret () then 1 else 0)" for j n
    by (simp add: pingNode_simple_def Let_def is_Exec_def Output_def split: cmd_result.splits)
  have gen: "length (filter (\<lambda>e. \<not> is_Exec e) (concat (map (\<lambda>p. fst (snd p))
               (map (\<lambda>(j, n). (n, pingNode_simple w k j interfaceName n)) (enumerate m l))))) =
             length (filter (\<lambda>p. snd (snd p) = Ret ())
               (map (\<lambda>(j, n). (n, pingNode_simple w k j interfaceName n)) (enumerate m l)))" for m l
    by (induction l arbitrary: m) (simp_all add: one)
  have 4: "length (outcomes_simple w interfaceName g k) =
     length (filter (\<lambda>p. snd (snd p) = Ret ())
       (probes_simple w k interfaceName (non_self_peers g)))"
    unfolding outcomes_simple_def launched_eq probes_simple_def by (rule gen)
  have "length (filter (\<lambda>p. snd (snd p) = Ret ()) (probes_simple w k interfaceName (non_self_peers g)))
        \<le> length (probes_simple w k interfaceName (non_self_peers g))"
    by (rule length_filter_le)
  then have 5: "length (outcomes_simple w interfaceName g k) \<le> length (non_self_peers g)"
    using 4 by (simp add: probes_simple_def)
  show ?thesis using s(1,3,4,5) 1 2 6 k 3 4 5 by blast
qed

theorem every_peer_one_outcome_witness:
  "cycle_returns world_ex ''eth0'' globals_ex 2 \<and>
   (\<exists>s. sweep_cycle world_ex ''eth0'' globals_ex 2 = Some s \<and> closed s \<and>
        results (collected s) = [''1 received''] \<and> errs (collected s) = [''signal: killed''] \<and>
        length (results (collected s)) + length (errs (collected s)) = 2) \<and>
   length (non_self_peers globals_ex) = 2 \<and>
   ping_cmd world_ex 2 (Suc 0) [''bash'', ''-c'', pingCmd ''eth0'' ''10.0.0.3''] = Hangs \<and>
   snd (pingNode world_ex 2 (Suc 0) ''eth0'' ''10.0.0.3'') = Ret (Inl ''signal: killed'')"
proof -
  have r: "cycle_returns world_ex ''eth0'' globals_ex 2"
    by (rule world_ex_returns)
  have h: "ping_cmd world_ex 2 (Suc 0) [''bash'', ''-c'', pingCmd ''eth0'' ''10.0.0.3''] = Hangs"
    by (simp add: world_ex_def)
  have n: "length (non_self_peers globals_ex) = 2"
    by (simp add: peers_ex)
  have sch: "schedule world_ex 2 = [Suc 0]"
    by (simp add: world_ex_def)
  note T = every_peer_one_outcome
    [where w = world_ex and interfaceName = "''eth0''" and g = globals_ex and k = 2
       and i = "Suc 0" and node = "''10.0.0.3''"]
  from T obtain s where s: "sweep_cycle world_ex ''eth0'' globals_ex 2 = Some s"
    "results (collected s) = successes (sent (arrivals s))"
    "errs (collected s) = failures (sent (arrivals s))"
    "closed s = cycle_returns world_ex ''eth0'' globals_ex 2"
    "cycle_returns world_ex ''eth0'' globals_ex 2 \<longrightarrow>
       length (results (collected s)) + length (errs (collected s)) = length (non_self_peers globals_ex)"
    by blast
  have a: "arrivals s = complete [Suc 0] (probes world_ex 2 ''eth0'' [''10.0.0.1'', ''10.0.0.3''])"
    using s(1) by (auto simp: sweep_cycle_eq peers_ex sch)
  have c: "closed s" using s(4) r by simp
  have l: "length (results (collected s)) + length (errs (collected s)) = 2"
    using s(5) r n by simp
  have v: "results (collected s) = [''1 received'']" "errs (collected s) = [''signal: killed'']"
    unfolding s(2,3) a probes_ex by (simp_all add: sent_def successes_def failures_def)
  from T h have p: "snd (pingNode world_ex 2 (Suc 0) ''eth0'' ''10.0.0.3'') = Ret (Inl ''signal: killed'')"
    by (simp add: killed_def)
  from s(1) c v l have "\<exists>s. sweep_cycle world_ex ''eth0'' globals_ex 2 = Some s \<and> closed s \<and>
        results (collected s) = [''1 received''] \<and> errs (collected s) = [''signal: killed''] \<and>
        length (results (collected s)) + length (errs (collected s)) = 2"
    by blast
  then show ?thesis
    using r n h p by blast
qed

text \<open>
  C2. No probe is started against the local address and no outcome is recorded for it,
  in either variant: the launching loop skips every entry of the peer list equal to
  \<open>localIP\<close>, logging each, and starts a goroutine for exactly the other entries; no
  goroutine of the cycle belongs to the local address and no command of an iteration
  pings it.
\<close>

theorem local_address_never_probed:
  "snd (fan_out v (localIP g) (node_list g)) = non_self_peers g \<and>
   fst (fan_out v (localIP g) (node_list g)) =
     replicate (count_list (node_list g) (localIP g)) (skipping v) \<and>
   localIP g \<notin> set (non_self_peers g) \<and>
   (\<exists>s. sweep_cycle w (flag_interface f) g k = Some s \<and> localIP g \<notin> set (map fst (arrivals s))) \<and>
   localIP g \<notin> set (map fst (probes_simple w k (flag_interface f)
                               (snd (fan_out Simple (localIP g) (node_list g))))) \<and>
   Exec [''bash'', ''-c'', pingCmd (flag_interface f) (localIP g)] \<notin> set (fst (iteration w f g k)) \<and>
   Exec [''bash'', ''-c'', pingCmd_simple (flag_interface f) (localIP g)]
     \<notin> set (fst (iteration_simple w f g k))"
proof -
  have 1: "snd (fan_out v (localIP g) (node_list g)) = non_self_peers g"
    "fst (fan_out v (localIP g) (node_list g)) =
     replicate (count_list (node_list g) (localIP g)) (skipping v)"
    by (simp_all add: fan_out_eq non_self_peers_def)
  obtain s where s: "sweep_cycle w (flag_interface f) g k = Some s"
    "arrivals s = complete (schedule w k) (probes w k (flag_interface f) (non_self_peers g))"
    using sweep_cycle_Some [of w "flag_interface f" g k] by blast
  have "set (map fst (arrivals s)) = set (non_self_peers g)"
    using arrivals_peers [of "schedule w k" w k "flag_interface f" "non_self_peers g"] s(2)
    by (metis set_mset_mset)
  then have 2: "localIP g \<notin> set (map fst (arrivals s))"
    using self_not_peer by simp
  have 3: "localIP g \<notin> set (map fst (probes_simple w k (flag_interface f)
                               (snd (fan_out Simple (localIP g) (node_list g)))))"
    by (simp only: map_fst_probes_simple launched_eq self_not_peer not_False_eq_True)
  have 4: "Exec [''bash'', ''-c'', pingCmd (flag_interface f) (localIP g)] \<notin> set (fst (iteration w f g k))"
    using Exec_iteration [of _ w f g k] self_not_peer [of g] pingCmd_inj by fastforce
  have 5: "Exec [''bash'', ''-c'', pingCmd_simple (flag_interface f) (localIP g)]
     \<notin> set (fst (iteration_simple w f g k))"
    using Exec_iteration_simple [of _ w f g k] self_not_peer [of g] pingCmd_simple_inj by fastforce
  show ?thesis using 1 self_not_peer [of g] s(1) 2 3 4 5 by blast
qed

text \<open>
  C4, as stated, fails in the simple variant: nothing ends a probe whose command hangs,
  so \<open>pingNode\<close> never returns and logs nothing, and the probe yields no failure.
\<close>

theorem hanging_probe_counterexample:
  "ping_cmd world_ex 1 (Suc 0) [''bash'', ''-c'', pingCmd_simple ''eth0'' ''10.0.0.3''] = Hangs \<and>
   pingNode_simple world_ex 1 (Suc 0) ''eth0'' ''10.0.0.3'' =
     ([Exec [''bash'', ''-c'', ''ping -I eth0 -c 1 10.0.0.3'']], Blocked)"
  by (simp add: pingNode_simple_def pingCmd_simple_eq Output_def world_ex_def)

text \<open>
  C4, amended. A probe never ends the process: \<open>pingNode\<close> neither exits nor panics.
  When the command of a probe fails, \<open>pingNode\<close> logs the failure at \<open>ErrorLevel\<close> (with
  package \<open>log\<close> in the simple variant) and returns; in the concurrent variant a command
  that hangs until it is killed at cancellation makes it return the error of the kill.
  In a cycle of the concurrent variant every probe that returns has its own value in
  the channels, an output in \<open>results\<close> and an error in \<open>errs\<close>, whatever the other
  probes do; when all probes of the cycle return, the iteration reports what was
  collected, sleeps and returns, and the loop goes on. In the simple variant a probe
  whose command hangs never returns and logs nothing, and every iteration returns. What
  the probe at one position does changes nothing for the probes at the other positions.
\<close>

theorem probe_failure_stays_local:
  "(ping_cmd w k i [''bash'', ''-c'', pingCmd (flag_interface f) node] = Failed err \<longrightarrow>
      pingNode w k i (flag_interface f) node =
        ([Exec [''bash'', ''-c'', pingCmd (flag_interface f) node],
          Log ErrorLevel (''Ping failed on node '' @ node @ '': '' @ err)], Ret (Inl err))) \<and>
   (ping_cmd w k i [''bash'', ''-c'', pingCmd (flag_interface f) node] = Hangs \<longrightarrow>
      pingNode w k i (flag_interface f) node =
        ([Exec [''bash'', ''-c'', pingCmd (flag_interface f) node],
          Log ErrorLevel (''Ping failed on node '' @ node @ '': '' @ killed)], Ret (Inl killed))) \<and>
   (ping_cmd w k i [''bash'', ''-c'', pingCmd_simple (flag_interface f) node] = Failed err \<longrightarrow>
      pingNode_simple w k i (flag_interface f) node =
        ([Exec [''bash'', ''-c'', pingCmd_simple (flag_interface f) node],
          Log StdLogger (''Ping failed on node '' @ node @ '': '' @ err)], Ret ())) \<and>
   (ping_cmd w k i [''bash'', ''-c'', pingCmd_simple (flag_interface f) node] = Hangs \<longrightarrow>
      pingNode_simple w k i (flag_interface f) node =
        ([Exec [''bash'', ''-c'', pingCmd_simple (flag_interface f) node]], Blocked)) \<and>
   snd (pingNode w k i (flag_interface f) node) \<noteq> Exit c \<and>
   snd (pingNode w k i (flag_interface f) node) \<noteq> Panic \<and>
   snd (pingNode_simple w k i (flag_interface f) node) \<noteq> Exit c \<and>
   snd (pingNode_simple w k i (flag_interface f) node) \<noteq> Panic \<and>
   (\<exists>s. sweep_cycle w (flag_interface f) g k = Some s \<and>
        mset (arrivals s) = mset (probes w k (flag_interface f) (non_self_peers g)) \<and>
        results (collected s) = successes (sent (arrivals s)) \<and>
        errs (collected s) = failures (sent (arrivals s)) \<and>
        (j < length (non_self_peers g) \<and>
         snd (pingNode w k j (flag_interface f) (non_self_peers g ! j)) = Ret (Inr out) \<longrightarrow>
           out \<in> set (results (collected s))) \<and>
        (j < length (non_self_peers g) \<and>
         snd (pingNode w k j (flag_interface f) (non_self_peers g ! j)) = Ret (Inl cause) \<longrightarrow>
           cause \<in> set (errs (collected s))) \<and>
        (cycle_returns w (flag_interface f) g k \<longrightarrow>
           iteration w f g k =
             (Timer cycleDeadline #
              skipped s @ concat (map (\<lambda>p. fst (snd p)) (arrivals s)) @ report (collected s) @
              [Sleep (cadence f)],
              Ret ()))) \<and>
   (list_all (cycle_returns w (flag_interface f) g) [k..<k + n] \<longrightarrow>
      snd (loop (iteration w f g) k n) = Ret ()) \<and>
   map fst (probes_simple w k (flag_interface f) (non_self_peers g)) = non_self_peers g \<and>
   snd (loop (iteration_simple w f g) k n) = Ret () \<and>
   (j < length l \<and> j \<noteq> i \<longrightarrow>
      probes (w\<lparr>ping_cmd := (ping_cmd w)(k := (ping_cmd w k)(i := b))\<rparr>) k (flag_interface f) l ! j =
        probes w k (flag_interface f) l ! j \<and>
      probes_simple (w\<lparr>ping_cmd := (ping_cmd w)(k := (ping_cmd w k)(i := b))\<rparr>) k (flag_interface f) l ! j =
        probes_simple w k (flag_interface f) l ! j)"
proof -
  let ?i = "flag_interface f"
  have 1: "ping_cmd w k i [''bash'', ''-c'', pingCmd ?i node] = Failed err \<longrightarrow>
      pingNode w k i ?i node =
        ([Exec [''bash'', ''-c'', pingCmd ?i node],
          Log ErrorLevel (''Ping failed on node '' @ node @ '': '' @ err)], Ret (Inl err))"
    by (simp add: pingNode_def Let_def Output_ctx_def verb_def)
  have 2: "ping_cmd w k i [''bash'', ''-c'', pingCmd ?i node] = Hangs \<longrightarrow>
      pingNode w k i ?i node =
        ([Exec [''bash'', ''-c'', pingCmd ?i node],
          Log ErrorLevel (''Ping failed on node '' @ node @ '': '' @ killed)], Ret (Inl killed))"
    by (simp add: pingNode_def Let_def Output_ctx_def verb_def)
  have 3: "ping_cmd w k i [''bash'', ''-c'', pingCmd_simple ?i node] = Failed err \<longrightarrow>
      pingNode_simple w k i ?i node =
        ([Exec [''bash'', ''-c'', pingCmd_simple ?i node],
          Log StdLogger (''Ping failed on node '' @ node @ '': '' @ err)], Ret ())"
    by (simp add: pingNode_simple_def Let_def Output_def verb_def)
  have 13: "ping_cmd w k i [''bash'', ''-c'', pingCmd_simple ?i node] = Hangs \<longrightarrow>
      pingNode_simple w k i ?i node = ([Exec [''bash'', ''-c'', pingCmd_simple ?i node]], Blocked)"
    by (simp add: pingNode_simple_def Let_def Output_def)
  obtain s where s: "sweep_cycle w ?i g k = Some s"
    "skipped s = replicate (count_list (node_list g) (localIP g)) (skipping Concurrent)"
    "arrivals s = complete (schedule w k) (probes w k ?i (non_self_peers g))"
    "results (collected s) = successes (sent (arrivals s))"
    "errs (collected s) = failures (sent (arrivals s))"
    using sweep_cycle_Some [of w ?i g k] by blast
  have 4: "mset (arrivals s) = mset (probes w k ?i (non_self_peers g))"
    by (simp only: s(3) mset_complete)
  have 5: "j < length (non_self_peers g) \<and>
         snd (pingNode w k j ?i (non_self_peers g ! j)) = Ret (Inr out) \<longrightarrow>
           out \<in> set (results (collected s))"
    unfolding s(3,4) using value_collected [of j "non_self_peers g" w k ?i "Inr out" "schedule w k"]
    by (auto intro: in_successes)
  have 6: "j < length (non_self_peers g) \<and>
         snd (pingNode w k j ?i (non_self_peers g ! j)) = Ret (Inl cause) \<longrightarrow>
           cause \<in> set (errs (collected s))"
    unfolding s(3,5) using value_collected [of j "non_self_peers g" w k ?i "Inl cause" "schedule w k"]
    by (auto intro: in_failures)
  have 7: "cycle_returns w ?i g k \<longrightarrow>
           iteration w f g k =
             (Timer cycleDeadline #
              skipped s @ concat (map (\<lambda>p. fst (snd p)) (arrivals s)) @ report (collected s) @
              [Sleep (cadence f)],
              Ret ())"
    using s(1) by (auto simp: iteration_def sweep_cycle_eq)
  have 8: "list_all (cycle_returns w ?i g) [k..<k + n] \<longrightarrow> snd (loop (iteration w f g) k n) = Ret ()"
    using loop_status [of "iteration w f g" "cycle_returns w ?i g" k n, OF iteration_status]
    by simp
  have 9: "map fst (probes_simple w k ?i (non_self_peers g)) = non_self_peers g"
    by (rule map_fst_probes_simple)
  have 10: "snd (loop (iteration_simple w f g) k n) = Ret ()"
    by (rule loop_Ret) (rule iteration_simple_Ret)
  have 11: "j < length l \<and> j \<noteq> i \<longrightarrow>
      probes (w\<lparr>ping_cmd := (ping_cmd w)(k := (ping_cmd w k)(i := b))\<rparr>) k ?i l ! j =
        probes w k ?i l ! j \<and>
      probes_simple (w\<lparr>ping_cmd := (ping_cmd w)(k := (ping_cmd w k)(i := b))\<rparr>) k ?i l ! j =
        probes_simple w k ?i l ! j"
    by (simp add: nth_probes nth_probes_simple pingNode_def pingNode_simple_def)
  from s(1,4,5) 4 5 6 7
  have 12: "\<exists>s. sweep_cycle w ?i g k = Some s \<and>
        mset (arrivals s) = mset (probes w k ?i (non_self_peers g)) \<and>
        results (collected s) = successes (sent (arrivals s)) \<and>
        errs (collected s) = failures (sent (arrivals s)) \<and>
        (j < length (non_self_peers g) \<and>
         snd (pingNode w k j ?i (non_self_peers g ! j)) = Ret (Inr out) \<longrightarrow>
           out \<in> set (results (collected s))) \<and>
        (j < length (non_self_peers g) \<and>
         snd (pingNode w k j ?i (non_self_peers g ! j)) = Ret (Inl cause) \<longrightarrow>
           cause \<in> set (errs (collected s))) \<and>
        (cycle_returns w ?i g k \<longrightarrow>
           iteration w f g k =
             (Timer cycleDeadline #
              skipped s @ concat (map (\<lambda>p. fst (snd p)) (arrivals s)) @ report (collected s) @
              [Sleep (cadence f)],
              Ret ()))"
    by blast
  show ?thesis
    using pingNode_never_fatal [of w k i ?i node c] pingNode_simple_never_fatal [of w k i ?i node c]
    by (intro conjI 1 2 3 13 12 8 9 10 11) simp_all
qed

theorem probe_failure_stays_local_witness:
  "ping_cmd world_down 2 0 [''bash'', ''-c'', pingCmd ''eth0'' ''10.0.0.1''] = Failed ''exit status 1'' \<and>
   pingNode world_down 2 0 ''eth0'' ''10.0.0.1'' =
     ([Exec [''bash'', ''-c'', ''ping -I eth0 -c 1 -W 5 10.0.0.1''],
       Log ErrorLevel ''Ping failed on node 10.0.0.1: exit status 1''], Ret (Inl ''exit status 1'')) \<and>
   ping_cmd world_ex 2 (Suc 0) [''bash'', ''-c'', pingCmd ''eth0'' ''10.0.0.3''] = Hangs \<and>
   snd (pingNode world_ex 2 (Suc 0) ''eth0'' ''10.0.0.3'') = Ret (Inl ''signal: killed'') \<and>
   ping_cmd world_down 2 0 [''bash'', ''-c'', pingCmd_simple ''eth0'' ''10.0.0.1''] =
     Failed ''exit status 1'' \<and>
   snd (pingNode_simple world_down 2 0 ''eth0'' ''10.0.0.1'') = Ret () \<and>
   ping_cmd world_ex 2 (Suc 0) [''bash'', ''-c'', pingCmd_simple ''eth0'' ''10.0.0.3''] = Hangs \<and>
   snd (pingNode_simple world_ex 2 (Suc 0) ''eth0'' ''10.0.0.3'') = Blocked \<and>
   snd (pingNode world_ex 2 0 ''eth0'' ''10.0.0.1'') = Ret (Inr ''1 received'') \<and>
   (\<exists>s. sweep_cycle world_ex ''eth0'' globals_ex 2 = Some s \<and>
        ''1 received'' \<in> set (results (collected s)) \<and>
        ''signal: killed'' \<in> set (errs (collected s))) \<and>
   cycle_returns world_ex ''eth0'' globals_ex 2 \<and>
   snd (iteration world_ex flags_ex globals_ex 2) = Ret () \<and>
   list_all (cycle_returns world_ex ''eth0'' globals_ex) [2..<2 + 3] \<and>
   snd (loop (iteration world_ex flags_ex globals_ex) 2 3) = Ret () \<and>
   Suc 0 < length [''10.0.0.1'', ''10.0.0.3''] \<and>
   probes world_down 2 ''eth0'' [''10.0.0.1'', ''10.0.0.3''] ! Suc 0 =
     probes world_ex 2 ''eth0'' [''10.0.0.1'', ''10.0.0.3''] ! Suc 0"
proof -
  have f: "flag_interface flags_ex = ''eth0''"
    by (simp add: flags_ex_def)
  have h1: "ping_cmd world_down 2 0 [''bash'', ''-c'', pingCmd ''eth0'' ''10.0.0.1''] =
            Failed ''exit status 1''"
    by (simp add: world_down_def)
  have h2: "ping_cmd world_ex 2 (Suc 0) [''bash'', ''-c'', pingCmd ''eth0'' ''10.0.0.3''] = Hangs"
    by (simp add: world_ex_def)
  have h3: "ping_cmd world_down 2 0 [''bash'', ''-c'', pingCmd_simple ''eth0'' ''10.0.0.1''] =
            Failed ''exit status 1''"
    by (simp add: world_down_def)
  have h8: "ping_cmd world_ex 2 (Suc 0) [''bash'', ''-c'', pingCmd_simple ''eth0'' ''10.0.0.3''] = Hangs"
    by (simp add: world_ex_def)
  have h4: "snd (pingNode world_ex 2 0 ''eth0'' ''10.0.0.1'') = Ret (Inr ''1 received'')"
    by (simp add: pingNode_def world_ex_def Output_ctx_def)
  have h5: "Suc 0 < length [''10.0.0.1'', ''10.0.0.3'']"
    by simp
  have h6: "cycle_returns world_ex ''eth0'' globals_ex 2"
    by (rule world_ex_returns)
  have h7: "list_all (cycle_returns world_ex ''eth0'' globals_ex) [2..<2 + 3]"
    by (simp add: list_all_iff world_ex_returns)
  note A = probe_failure_stays_local
    [where w = world_down and k = 2 and i = 0 and f = flags_ex and node = "''10.0.0.1''"
       and err = "''exit status 1''" and g = globals_ex and j = "Suc 0" and n = 3
       and l = "[]" and b = "\<lambda>argv. Hangs", unfolded f]
  note B = probe_failure_stays_local
    [where w = world_ex and k = 2 and i = "Suc 0" and f = flags_ex and node = "''10.0.0.3''"
       and err = "''exit status 1''" and g = globals_ex and j = 0 and out = "''1 received''"
       and n = 3 and l = "[]" and b = "\<lambda>argv. Hangs", unfolded f]
  note C = probe_failure_stays_local
    [where w = world_ex and k = 2 and i = 0 and f = flags_ex and node = "''10.0.0.1''"
       and err = "''exit status 1''" and g = globals_ex and j = "Suc 0"
       and cause = "''signal: killed''" and n = 3
       and l = "[''10.0.0.1'', ''10.0.0.3'']" and b = "\<lambda>argv. Failed ''exit status 1''", unfolded f]
  have a1: "pingNode world_down 2 0 ''eth0'' ''10.0.0.1'' =
     ([Exec [''bash'', ''-c'', ''ping -I eth0 -c 1 -W 5 10.0.0.1''],
       Log ErrorLevel ''Ping failed on node 10.0.0.1: exit status 1''], Ret (Inl ''exit status 1''))"
    using A h1 by (simp add: pingCmd_eq)
  have a2: "snd (pingNode_simple world_down 2 0 ''eth0'' ''10.0.0.1'') = Ret ()"
    using A h3 by simp
  have a3: "probes world_down 2 ''eth0'' [''10.0.0.1'', ''10.0.0.3''] ! Suc 0 =
     probes world_ex 2 ''eth0'' [''10.0.0.1'', ''10.0.0.3''] ! Suc 0"
    using C h5 unfolding world_down_def by simp
  have b1: "snd (pingNode world_ex 2 (Suc 0) ''eth0'' ''10.0.0.3'') = Ret (Inl ''signal: killed'')"
    using B h2 by (simp add: killed_def)
  have b2: "snd (pingNode_simple world_ex 2 (Suc 0) ''eth0'' ''10.0.0.3'') = Blocked"
    using B h8 by simp
  from B obtain s where s: "sweep_cycle world_ex ''eth0'' globals_ex 2 = Some s"
    "0 < length (non_self_peers globals_ex) \<and>
       snd (pingNode world_ex 2 0 ''eth0'' (non_self_peers globals_ex ! 0)) = Ret (Inr ''1 received'') \<longrightarrow>
       ''1 received'' \<in> set (results (collected s))"
    "cycle_returns world_ex ''eth0'' globals_ex 2 \<longrightarrow>
       iteration world_ex flags_ex globals_ex 2 =
         (Timer cycleDeadline #
          skipped s @ concat (map (\<lambda>p. fst (snd p)) (arrivals s)) @ report (collected s) @
          [Sleep (cadence flags_ex)],
          Ret ())"
    by blast
  from C obtain s' where s': "sweep_cycle world_ex ''eth0'' globals_ex 2 = Some s'"
    "Suc 0 < length (non_self_peers globals_ex) \<and>
       snd (pingNode world_ex 2 (Suc 0) ''eth0'' (non_self_peers globals_ex ! Suc 0)) =
         Ret (Inl ''signal: killed'') \<longrightarrow>
       ''signal: killed'' \<in> set (errs (collected s'))"
    by blast
  have e: "s' = s" using s(1) s'(1) by simp
  have c1: "''1 received'' \<in> set (results (collected s))"
    using s(2) h4 by (simp add: peers_ex)
  have c2: "''signal: killed'' \<in> set (errs (collected s))"
    using s'(2) b1 unfolding e by (simp add: peers_ex)
  have c3: "snd (iteration world_ex flags_ex globals_ex 2) = Ret ()"
    using s(3) h6 by simp
  have c4: "snd (loop (iteration world_ex flags_ex globals_ex) 2 3) = Ret ()"
    using B h7 by simp
  from s(1) c1 c2 have c: "\<exists>s. sweep_cycle world_ex ''eth0'' globals_ex 2 = Some s \<and>
        ''1 received'' \<in> set (results (collected s)) \<and>
        ''signal: killed'' \<in> set (errs (collected s))"
    by blast
  show ?thesis
    by (intro conjI h1 h2 h3 h4 h5 h6 h7 h8 a1 a2 a3 b1 b2 c c3 c4)
qed

text \<open>
  C10. How the local address is found. With a non-empty \<open>-ip\<close> flag \<open>localIP\<close> is what
  the flag holds, unchanged, and the program never runs \<open>hostname\<close>. With an empty flag
  \<open>localIP\<close> is the first field of the output of \<open>hostname -I\<close>, that is the first plain
  word of the output, the one that follows its leading blanks and ends at the next
  white space; an output without a field, such as an empty or blank one, is fatal: the
  program logs it and exits with status 1 before any cycle.
\<close>

theorem local_address_determined:
  "(flag_ip f \<noteq> [] \<longrightarrow>
      locate v w f = ([], Ret (init_globals\<lparr>localIP := flag_ip f\<rparr>)) \<and>
      Exec [''hostname'', ''-I''] \<notin> set (fst (program v w f n))) \<and>
   (flag_ip f = [] \<and> hostname_cmd w = Finished out \<and> Fields out = tok # toks \<longrightarrow>
      locate v w f = ([Exec [''hostname'', ''-I'']], Ret (init_globals\<lparr>localIP := tok\<rparr>))) \<and>
   (blank pre \<and> plain tok \<and> tok \<noteq> [] \<and> (rest = [] \<or> ascii_space (of_char (hd rest))) \<longrightarrow>
      Fields (pre @ tok @ rest) = tok # Fields rest) \<and>
   (blank out \<longrightarrow> Fields out = []) \<and>
   (logging_ok v w \<and> flag_ip f = [] \<and> hostname_cmd w = Finished out \<and> Fields out = [] \<longrightarrow>
      program v w f n =
        (prelude v @
         [Exec [''hostname'', ''-I''], Fatalf v ''No IP address returned by hostname command''],
         Exited 1))"
proof -
  have 1: "flag_ip f \<noteq> [] \<longrightarrow>
      locate v w f = ([], Ret (init_globals\<lparr>localIP := flag_ip f\<rparr>)) \<and>
      Exec [''hostname'', ''-I''] \<notin> set (fst (program v w f n))"
    using locate_flag [of f v w] no_lookup_with_flag [of f v w n] by blast
  have 2: "flag_ip f = [] \<and> hostname_cmd w = Finished out \<and> Fields out = tok # toks \<longrightarrow>
      locate v w f = ([Exec [''hostname'', ''-I'']], Ret (init_globals\<lparr>localIP := tok\<rparr>))"
    using locate_token [of f w out tok toks v] by blast
  have 3: "blank pre \<and> plain tok \<and> tok \<noteq> [] \<and> (rest = [] \<or> ascii_space (of_char (hd rest))) \<longrightarrow>
      Fields (pre @ tok @ rest) = tok # Fields rest"
    using Fields_first_token [of pre tok rest] by blast
  have 4: "blank out \<longrightarrow> Fields out = []"
    using Fields_blank [of out] by blast
  have 5: "logging_ok v w \<and> flag_ip f = [] \<and> hostname_cmd w = Finished out \<and> Fields out = [] \<longrightarrow>
      program v w f n =
        (prelude v @
         [Exec [''hostname'', ''-I''], Fatalf v ''No IP address returned by hostname command''],
         Exited 1)"
  proof (intro impI, elim conjE)
    assume a: "logging_ok v w" "flag_ip f = []" "hostname_cmd w = Finished out" "Fields out = []"
    from resolve_locate_Exit [OF locate_empty [OF a(2,3,4)]] program_Exit [OF a(1)]
    show "program v w f n =
        (prelude v @
         [Exec [''hostname'', ''-I''], Fatalf v ''No IP address returned by hostname command''],
         Exited 1)"
      by blast
  qed
  show ?thesis using 1 2 3 4 5 by (intro conjI)
qed

theorem local_address_determined_witness:
  "flag_ip flags_ip = ''10.0.0.3'' \<and>
   locate Concurrent world_ex flags_ip = ([], Ret (init_globals\<lparr>localIP := ''10.0.0.3''\<rparr>)) \<and>
   Exec [''hostname'', ''-I''] \<notin> set (fst (program Concurrent world_ex flags_ip 1)) \<and>
   flag_ip flags_ex = [] \<and>
   hostname_cmd world_ex = Finished (''10.0.0.2 172.17.0.1 '' @ [CHR 0x0A]) \<and>
   Fields (''10.0.0.2 172.17.0.1 '' @ [CHR 0x0A]) = [''10.0.0.2'', ''172.17.0.1''] \<and>
   locate Concurrent world_ex flags_ex =
     ([Exec [''hostname'', ''-I'']], Ret (init_globals\<lparr>localIP := ''10.0.0.2''\<rparr>)) \<and>
   plain ''10.0.0.2'' \<and>
   Fields ([] @ ''10.0.0.2'' @ '' 172.17.0.1'') = ''10.0.0.2'' # Fields '' 172.17.0.1'' \<and>
   blank [CHR 0x0A] \<and>
   hostname_cmd world_no_address = Finished [CHR 0x0A] \<and>
   Fields [CHR 0x0A] = [] \<and>
   program Simple world_no_address flags_ex 3 =
     ([Exec [''hostname'', ''-I''],
       Log StdLogger ''No IP address returned by hostname command''], Exited 1)"
proof -
  have h1: "flag_ip flags_ip = ''10.0.0.3''"
    by (simp add: flags_ip_def)
  have h2: "flag_ip flags_ex = []"
    "hostname_cmd world_ex = Finished (''10.0.0.2 172.17.0.1 '' @ [CHR 0x0A])"
    by (simp_all add: flags_ex_def world_ex_def)
  have h3: "Fields (''10.0.0.2 172.17.0.1 '' @ [CHR 0x0A]) = [''10.0.0.2'', ''172.17.0.1'']"
    by (simp add: Fields_def space_len_def ascii_space_def flush_def)
  have h4: "blank []" "plain ''10.0.0.2''" "''10.0.0.2'' \<noteq> []"
    "ascii_space (of_char (hd '' 172.17.0.1''))"
    by (simp_all add: blank_def plain_def space_lead_def ascii_space_def)
  have h5: "blank [CHR 0x0A]"
    by (simp add: blank_def ascii_space_def)
  have h6: "logging_ok Simple world_no_address"
    "hostname_cmd world_no_address = Finished [CHR 0x0A]"
    by (simp_all add: logging_ok_def world_no_address_def)
  note A = local_address_determined
    [where f = flags_ip and v = Concurrent and w = world_ex and n = 1]
  note B = local_address_determined
    [where f = flags_ex and v = Concurrent and w = world_ex and n = 1
       and out = "''10.0.0.2 172.17.0.1 '' @ [CHR 0x0A]" and tok = "''10.0.0.2''"
       and toks = "[''172.17.0.1'']" and pre = "[]" and rest = "'' 172.17.0.1''"]
  note C = local_address_determined
    [where f = flags_ex and v = Simple and w = world_no_address and n = 3
       and out = "[CHR 0x0A]"]
  have a: "locate Concurrent world_ex flags_ip = ([], Ret (init_globals\<lparr>localIP := ''10.0.0.3''\<rparr>))"
    "Exec [''hostname'', ''-I''] \<notin> set (fst (program Concurrent world_ex flags_ip 1))"
    using A h1 by simp_all
  have b: "locate Concurrent world_ex flags_ex =
     ([Exec [''hostname'', ''-I'']], Ret (init_globals\<lparr>localIP := ''10.0.0.2''\<rparr>))"
    "Fields ([] @ ''10.0.0.2'' @ '' 172.17.0.1'') = ''10.0.0.2'' # Fields '' 172.17.0.1''"
    using B h2 h3 h4 by simp_all
  have c: "Fields [CHR 0x0A] = []"
    using C h5 by simp
  have d: "program Simple world_no_address flags_ex 3 =
     ([Exec [''hostname'', ''-I''],
       Log StdLogger ''No IP address returned by hostname command''], Exited 1)"
    using C h6 h2(1) c by (simp add: prelude_def Fatalf_def)
  show ?thesis
    by (intro conjI h1 h2 h3 h4(2) h5 h6(2) a b c d)
qed

text \<open>
  C5. A failure at start-up is reported and ends the process before the loop and before
  the service is installed: when the \<open>-ip\<close> flag is empty and \<open>hostname -I\<close> fails or
  prints no address, and when the first \<open>pxctl status -j\<close> fails or its output cannot be
  parsed, the last event of the run is the fatal message and the process has exited with
  status 1, however many iterations the run is given.
\<close>

theorem startup_failure_halts:
  "(logging_ok v w \<and> flag_ip f = [] \<and> hostname_cmd w = Failed err \<longrightarrow>
      program v w f n =
        (prelude v @
         [Exec [''hostname'', ''-I''],
          Fatalf v (''Failed to execute hostname command: '' @ err)], Exited 1)) \<and>
   (logging_ok v w \<and> flag_ip f = [] \<and> hostname_cmd w = Finished out \<and> Fields out = [] \<longrightarrow>
      program v w f n =
        (prelude v @
         [Exec [''hostname'', ''-I''],
          Fatalf v ''No IP address returned by hostname command''], Exited 1)) \<and>
   (logging_ok v w \<and> locate v w f = (e, Ret g) \<and> pxctl_cmd w 0 = Failed err \<longrightarrow>
      program v w f n =
        (prelude v @ e @
         [Exec [pxctlBin, ''status'', ''-j''],
          Fatalf v (''Failed to execute pxctl status command: '' @ err)], Exited 1)) \<and>
   (logging_ok v w \<and> locate v w f = (e, Ret g) \<and> pxctl_cmd w 0 = Finished out \<and>
    unmarshal w out = Inl err \<longrightarrow>
      program v w f n =
        (prelude v @ e @
         [Exec [pxctlBin, ''status'', ''-j''],
          Fatalf v (''Failed to parse JSON output: '' @ err)], Exited 1))"
proof (intro conjI impI; elim conjE)
  assume a: "logging_ok v w" "flag_ip f = []" "hostname_cmd w = Failed err"
  from resolve_locate_Exit [OF locate_failed [OF a(2,3)]] program_Exit [OF a(1)]
  show "program v w f n =
        (prelude v @
         [Exec [''hostname'', ''-I''],
          Fatalf v (''Failed to execute hostname command: '' @ err)], Exited 1)"
    by blast
next
  assume a: "logging_ok v w" "flag_ip f = []" "hostname_cmd w = Finished out" "Fields out = []"
  from resolve_locate_Exit [OF locate_empty [OF a(2,3,4)]] program_Exit [OF a(1)]
  show "program v w f n =
        (prelude v @
         [Exec [''hostname'', ''-I''],
          Fatalf v ''No IP address returned by hostname command''], Exited 1)"
    by blast
next
  assume a: "logging_ok v w" "locate v w f = (e, Ret g)" "pxctl_cmd w 0 = Failed err"
  have "resolve v w f =
        (e @ [Exec [pxctlBin, ''status'', ''-j''],
              Fatalf v (''Failed to execute pxctl status command: '' @ err)], Exit 1)"
    using resolve_getNodes [OF a(2)] getNodes_failed [OF a(3), of v g] by simp
  from program_Exit [OF a(1) this]
  show "program v w f n =
        (prelude v @ e @
         [Exec [pxctlBin, ''status'', ''-j''],
          Fatalf v (''Failed to execute pxctl status command: '' @ err)], Exited 1)"
    by simp
next
  assume a: "logging_ok v w" "locate v w f = (e, Ret g)" "pxctl_cmd w 0 = Finished out"
    "unmarshal w out = Inl err"
  have "resolve v w f =
        (e @ [Exec [pxctlBin, ''status'', ''-j''],
              Fatalf v (''Failed to parse JSON output: '' @ err)], Exit 1)"
    using resolve_getNodes [OF a(2)] getNodes_unparsed [OF a(3,4), of v g] by simp
  from program_Exit [OF a(1) this]
  show "program v w f n =
        (prelude v @ e @
         [Exec [pxctlBin, ''status'', ''-j''],
          Fatalf v (''Failed to parse JSON output: '' @ err)], Exited 1)"
    by simp
qed

theorem startup_failure_halts_witness:
  "hostname_cmd world_no_hostname = Failed ''exit status 1'' \<and>
   program Concurrent world_no_hostname flags_ex 3 =
     ([Log InfoLevel ''Set up logging for NW Monitor'', Exec [''hostname'', ''-I''],
       Log FatalLevel ''Failed to execute hostname command: exit status 1''], Exited 1) \<and>
   hostname_cmd world_no_address = Finished [CHR 0x0A] \<and> Fields [CHR 0x0A] = [] \<and>
   program Concurrent world_no_address flags_ex 3 =
     ([Log InfoLevel ''Set up logging for NW Monitor'', Exec [''hostname'', ''-I''],
       Log FatalLevel ''No IP address returned by hostname command''], Exited 1) \<and>
   locate Simple world_no_pxctl flags_ex =
     ([Exec [''hostname'', ''-I'']], Ret (init_globals\<lparr>localIP := ''10.0.0.2''\<rparr>)) \<and>
   pxctl_cmd world_no_pxctl 0 = Failed ''exit status 1'' \<and>
   program Simple world_no_pxctl flags_ex 3 =
     ([Exec [''hostname'', ''-I''], Exec [''/opt/pwx/bin/pxctl'', ''status'', ''-j''],
       Log StdLogger ''Failed to execute pxctl status command: exit status 1''], Exited 1) \<and>
   locate Concurrent world_bad_json flags_ip =
     ([], Ret (init_globals\<lparr>localIP := ''10.0.0.3''\<rparr>)) \<and>
   pxctl_cmd world_bad_json 0 = Finished ''status'' \<and>
   unmarshal world_bad_json ''status'' = Inl ''unexpected end of JSON input'' \<and>
   program Concurrent world_bad_json flags_ip 3 =
     ([Log InfoLevel ''Set up logging for NW Monitor'',
       Exec [''/opt/pwx/bin/pxctl'', ''status'', ''-j''],
       Log FatalLevel ''Failed to parse JSON output: unexpected end of JSON input''], Exited 1)"
proof -
  have l: "logging_ok Concurrent world_no_hostname" "logging_ok Concurrent world_no_address"
    "logging_ok Simple world_no_pxctl" "logging_ok Concurrent world_bad_json"
    by (simp_all add: logging_ok_def world_no_hostname_def world_no_address_def
        world_bad_json_def world_ex_def)
  have f: "flag_ip flags_ex = []"
    by (simp add: flags_ex_def)
  have h1: "hostname_cmd world_no_hostname = Failed ''exit status 1''"
    by (simp add: world_no_hostname_def)
  have h2: "hostname_cmd world_no_address = Finished [CHR 0x0A]" "Fields [CHR 0x0A] = []"
    by (simp_all add: world_no_address_def Fields_def space_len_def ascii_space_def flush_def)
  have h3: "locate Simple world_no_pxctl flags_ex =
     ([Exec [''hostname'', ''-I'']], Ret (init_globals\<lparr>localIP := ''10.0.0.2''\<rparr>))"
    "pxctl_cmd world_no_pxctl 0 = Failed ''exit status 1''"
    by (simp_all add: locate_def getLocalIP_def Output_def flags_ex_def world_no_pxctl_def
        world_ex_def Fields_def space_len_def ascii_space_def flush_def)
  have h4: "locate Concurrent world_bad_json flags_ip =
     ([], Ret (init_globals\<lparr>localIP := ''10.0.0.3''\<rparr>))"
    "pxctl_cmd world_bad_json 0 = Finished ''status''"
    "unmarshal world_bad_json ''status'' = Inl ''unexpected end of JSON input''"
    by (simp_all add: locate_def flags_ip_def flags_ex_def world_bad_json_def world_ex_def)
  note A = startup_failure_halts
    [where v = Concurrent and w = world_no_hostname and f = flags_ex
       and err = "''exit status 1''" and n = 3]
  note B = startup_failure_halts
    [where v = Concurrent and w = world_no_address and f = flags_ex and n = 3
       and out = "[CHR 0x0A]"]
  note C = startup_failure_halts
    [where v = Simple and w = world_no_pxctl and f = flags_ex and err = "''exit status 1''"
       and n = 3 and e = "[Exec [''hostname'', ''-I'']]"
       and g = "init_globals\<lparr>localIP := ''10.0.0.2''\<rparr>"]
  note D = startup_failure_halts
    [where v = Concurrent and w = world_bad_json and f = flags_ip
       and err = "''unexpected end of JSON input''" and n = 3 and out = "''status''" and e = "[]"
       and g = "init_globals\<lparr>localIP := ''10.0.0.3''\<rparr>"]
  have a: "program Concurrent world_no_hostname flags_ex 3 =
     ([Log InfoLevel ''Set up logging for NW Monitor'', Exec [''hostname'', ''-I''],
       Log FatalLevel ''Failed to execute hostname command: exit status 1''], Exited 1)"
    using A l(1) f h1 by (simp add: prelude_def Fatalf_def)
  have b: "program Concurrent world_no_address flags_ex 3 =
     ([Log InfoLevel ''Set up logging for NW Monitor'', Exec [''hostname'', ''-I''],
       Log FatalLevel ''No IP address returned by hostname command''], Exited 1)"
    using B l(2) f h2 by (simp add: prelude_def Fatalf_def)
  have c: "program Simple world_no_pxctl flags_ex 3 =
     ([Exec [''hostname'', ''-I''], Exec [''/opt/pwx/bin/pxctl'', ''status'', ''-j''],
       Log StdLogger ''Failed to execute pxctl status command: exit status 1''], Exited 1)"
    using C l(3) h3 by (simp add: prelude_def Fatalf_def pxctlBin_def)
  have d: "program Concurrent world_bad_json flags_ip 3 =
     ([Log InfoLevel ''Set up logging for NW Monitor'',
       Exec [''/opt/pwx/bin/pxctl'', ''status'', ''-j''],
       Log FatalLevel ''Failed to parse JSON output: unexpected end of JSON input''], Exited 1)"
    using D l(4) h4 by (simp add: prelude_def Fatalf_def pxctlBin_def)
  show ?thesis
    by (intro conjI h1 h2 h3 h4 a b c d)
qed

text \<open>
  C7. For a cadence that does not fit a \<open>time.Duration\<close> the loop does not wait between
  its cycles: with \<open>-frequency 9223372037\<close> the product
  \<open>time.Duration(*frequency) * time.Second\<close> wraps around to a negative duration,
  \<open>time.Sleep\<close> returns at once, and the run goes from one cycle to the next without
  sleeping, in both variants. With \<open>-frequency 3\<close> the sleep lasts three seconds.
\<close>

theorem cadence_overflow:
  "flag_r flags_long \<and> sint (flag_frequency flags_long) = 9223372037 \<and>
   sint (cadence flags_long) = - 9223372036709551616 \<and>
   slept_ns (cadence flags_long) = 0 \<and>
   slept_ns (cadence flags_long) \<noteq> sint (flag_frequency flags_long) * 1000000000 \<and>
   snd (program Concurrent world_ex flags_long 2) = Running \<and>
   filter is_Sleep (fst (program Concurrent world_ex flags_long 2)) =
     [Sleep (cadence flags_long), Sleep (cadence flags_long)] \<and>
   snd (program Simple world_ex flags_long 2) = Running \<and>
   filter is_Sleep (fst (program Simple world_ex flags_long 2)) =
     [Sleep (cadence flags_long), Sleep (cadence flags_long)] \<and>
   slept_ns (cadence flags_ex) = 3000000000"
proof -
  have 1: "flag_r flags_long" "sint (flag_frequency flags_long) = 9223372037"
    by (simp_all add: flags_long_def flags_ex_def)
  have 2: "sint (cadence flags_long) = - 9223372036709551616"
    by (simp add: cadence_def flags_long_def flags_ex_def Second_def)
  have 3: "slept_ns (cadence flags_long) = 0"
    by (simp add: slept_ns_def 2)
  have run: "program v world_ex flags_long 2 =
      (prelude v @ [Exec [''hostname'', ''-I''], Exec [''/opt/pwx/bin/pxctl'', ''status'', ''-j'']] @
       fst (loop (iteration_of v world_ex flags_long globals_ex) 1 2), Running)" for v
    using program_run [OF logging_ex resolve_long 1(1), of v 2]
    by (simp add: world_ex_completes)
  have sl: "filter is_Sleep (fst (loop (iteration_of v world_ex flags_long globals_ex) 1 2)) =
      [Sleep (cadence flags_long), Sleep (cadence flags_long)]" for v
    using Sleeps_loop [of v world_ex flags_long globals_ex 1 2, OF world_ex_completes]
    by (simp add: numeral_2_eq_2)
  have 4: "snd (program v world_ex flags_long 2) = Running" for v
    by (simp add: run)
  have 5: "filter is_Sleep (fst (program v world_ex flags_long 2)) =
     [Sleep (cadence flags_long), Sleep (cadence flags_long)]" for v
    unfolding run fst_conv filter_append sl
    by (cases v) (simp_all add: prelude_def is_Sleep_def)
  have 6: "slept_ns (cadence flags_ex) = 3000000000"
    by (simp add: slept_ns_def cadence_def flags_ex_def Second_def)
  show ?thesis
    using 1 2 3 4 5 6 by simp
qed

text \<open>
  C3, as stated, fails: the program asks the membership source once, at start-up, and
  never again. In the example the source fails from cycle 5 on; cycle 5 runs its probes
  as every cycle does and nothing about the membership is reported.
\<close>

theorem membership_failure_unreported_counterexample:
  "pxctl_cmd world_ex 4 = Finished ''status'' \<and>
   pxctl_cmd world_ex 5 = Failed ''exit status 1'' \<and>
   resolve Concurrent world_ex flags_ex =
     ([Exec [''hostname'', ''-I''], Exec [''/opt/pwx/bin/pxctl'', ''status'', ''-j'']], Ret globals_ex) \<and>
   iteration world_ex flags_ex globals_ex 5 =
     ([Timer 300000000000,
       Log InfoLevel ''skipping local node'',
       Exec [''bash'', ''-c'', ''ping -I eth0 -c 1 -W 5 10.0.0.3''],
       Log ErrorLevel ''Ping failed on node 10.0.0.3: signal: killed'',
       Exec [''bash'', ''-c'', ''ping -I eth0 -c 1 -W 5 10.0.0.1''],
       Log InfoLevel ''1 received'',
       Log ErrorLevel ''Ping failed: signal: killed'',
       Sleep 3000000000], Ret ()) \<and>
   filter fetch_failure_report (fst (iteration world_ex flags_ex globals_ex 5)) = []"
proof -
  have 1: "pxctl_cmd world_ex 4 = Finished ''status''" "pxctl_cmd world_ex 5 = Failed ''exit status 1''"
    by (simp_all add: world_ex_def)
  have 3: "filter fetch_failure_report (fst (iteration world_ex flags_ex globals_ex 5)) = []"
    unfolding iteration_ex by (simp add: fetch_failure_report_def)
  show ?thesis
    by (intro conjI 1 resolve_ex iteration_ex 3)
qed

text \<open>
  C3, amended. The membership is fetched once, at start-up, and every cycle works on
  that peer list: what the source would answer later changes neither the run nor any
  iteration, no iteration runs \<open>pxctl\<close> or reports a fetch failure, and in direct
  mode the process does not exit: it is about to start its next iteration when every
  cycle so far has completed, and waits inside a cycle otherwise.
\<close>

theorem membership_fetched_once:
  "(later 0 = pxctl_cmd w 0 \<longrightarrow> program v (w\<lparr>pxctl_cmd := later\<rparr>) f n = program v w f n) \<and>
   iteration_of v (w\<lparr>pxctl_cmd := later\<rparr>) f g k = iteration_of v w f g k \<and>
   filter fetch_failure_report (fst (iteration_of v w f g k)) = [] \<and>
   Exec [pxctlBin, ''status'', ''-j''] \<notin> set (fst (iteration_of v w f g k)) \<and>
   (logging_ok v w \<and> resolve v w f = (e, Ret g) \<and> flag_r f \<longrightarrow>
      (\<exists>out st. pxctl_cmd w 0 = Finished out \<and> unmarshal w out = Inr st \<and>
                nodes g = Some (map DataIp (Nodes (cluster st)))) \<and>
      program v w f n =
        (prelude v @ e @ fst (loop (iteration_of v w f g) 1 n),
         if list_all (completes v w f g) [1..<Suc n] then Running else Waiting) \<and>
      filter fetch_failure_report (fst (loop (iteration_of v w f g) 1 n)) = [] \<and>
      Exec [pxctlBin, ''status'', ''-j''] \<notin> set (fst (loop (iteration_of v w f g) 1 n)))"
  using program_later [where later = later and w = w and v = v and f = f and n = n]
    iteration_of_later [where v = v and w = w and later = later]
    no_fetch_report_iteration_of [of v w f g k] no_pxctl_iteration_of [of v w f g k]
    resolve_Ret_nodes [of v w f e g] program_run [of v w f e g n]
    no_fetch_report_loop [of v w f g 1 n] no_pxctl_loop [of v w f g 1 n]
  by (intro conjI impI) simp_all

theorem membership_fetched_once_witness:
  "pxctl_cmd world_steady 0 = pxctl_cmd world_ex 0 \<and>
   program Concurrent world_steady flags_ex 5 = program Concurrent world_ex flags_ex 5 \<and>
   logging_ok Concurrent world_ex \<and> flag_r flags_ex \<and>
   resolve Concurrent world_ex flags_ex =
     ([Exec [''hostname'', ''-I''], Exec [''/opt/pwx/bin/pxctl'', ''status'', ''-j'']], Ret globals_ex) \<and>
   snd (program Concurrent world_ex flags_ex 5) = Running \<and>
   filter fetch_failure_report
     (fst (loop (iteration_of Concurrent world_ex flags_ex globals_ex) 1 5)) = []"
proof -
  have h: "logging_ok Concurrent world_ex" "flag_r flags_ex"
    by (simp_all add: logging_ok_def world_ex_def flags_ex_def)
  have l: "(\<lambda>t. Finished ''status'') 0 = pxctl_cmd world_ex 0"
    by (simp add: world_ex_def)
  have l': "pxctl_cmd world_steady 0 = pxctl_cmd world_ex 0"
    by (simp add: world_steady_def world_ex_def)
  note T = membership_fetched_once
    [where later = "\<lambda>t. Finished ''status''" and w = world_ex and v = Concurrent and f = flags_ex
       and n = 5 and g = globals_ex and k = 5
       and e = "[Exec [''hostname'', ''-I''], Exec [''/opt/pwx/bin/pxctl'', ''status'', ''-j'']]"]
  from T l have a: "program Concurrent world_steady flags_ex 5 = program Concurrent world_ex flags_ex 5"
    unfolding world_steady_def by simp
  from T h resolve_ex [of Concurrent]
  have b: "program Concurrent world_ex flags_ex 5 =
       (prelude Concurrent @
        [Exec [''hostname'', ''-I''], Exec [''/opt/pwx/bin/pxctl'', ''status'', ''-j'']] @
        fst (loop (iteration_of Concurrent world_ex flags_ex globals_ex) 1 5),
        if list_all (completes Concurrent world_ex flags_ex globals_ex) [1..<Suc 5]
        then Running else Waiting)"
    and c: "filter fetch_failure_report
       (fst (loop (iteration_of Concurrent world_ex flags_ex globals_ex) 1 5)) = []"
    by simp_all
  have r: "snd (program Concurrent world_ex flags_ex 5) = Running"
    unfolding b by (simp add: world_ex_completes)
  show ?thesis
    by (intro conjI l' a h resolve_ex r c)
qed

end
